theory Spec2Isabelle
  imports Complex_Main "HOL-Library.Sublist"
begin

section \<open>Numbers, constants and the random source\<close>

text \<open>
  The game computes with JavaScript numbers. Coordinates, angles and timers are modelled
  as exact reals; score and lives only ever take integer values and are modelled as
  integers. \<open>WIDTH\<close> and \<open>HEIGHT\<close> are read from the canvas element, which is not part of
  the source, so every function that uses them takes them as parameters.
  \<open>Math.random\<close> is a sequence of numbers that is consumed from the front.
\<close>

definition PLAYER_SPEED :: real where "PLAYER_SPEED = 2.6"
definition BULLET_SPEED :: real where "BULLET_SPEED = 6"
definition ENEMY_SPEED :: real where "ENEMY_SPEED = 1.8"
definition ENEMY_COUNT :: nat where "ENEMY_COUNT = 5"
definition PLAYER_MAX_LIVES :: int where "PLAYER_MAX_LIVES = 3"

type_synonym random_source = "nat \<Rightarrow> real"

definition Math_random :: "random_source \<Rightarrow> real \<times> random_source" where
  "Math_random r = (r 0, \<lambda>n. r (Suc n))"

definition clamp :: "real \<Rightarrow> real \<Rightarrow> real \<Rightarrow> real" where
  "clamp v lo hi = min (max v lo) hi"

definition Math_hypot :: "real \<Rightarrow> real \<Rightarrow> real" where
  "Math_hypot a b = sqrt (a\<^sup>2 + b\<^sup>2)"

definition Math_atan2 :: "real \<Rightarrow> real \<Rightarrow> real" where
  "Math_atan2 v u =
     (if 0 < u then arctan (v / u)
      else if u < 0 then (if 0 \<le> v then arctan (v / u) + pi else arctan (v / u) - pi)
      else if 0 < v then pi / 2
      else if v < 0 then - (pi / 2)
      else 0)"

section \<open>Input\<close>

type_synonym keyset = "string set"

definition pressed :: "keyset \<Rightarrow> string \<Rightarrow> bool" where
  "pressed ks code = (code \<in> ks)"

section \<open>Bullet\<close>

record bullet =
  b_x :: real
  b_y :: real
  b_dir :: real
  b_owner :: string
  b_size :: real
  b_speed :: real
  b_active :: bool

definition Bullet :: "real \<Rightarrow> real \<Rightarrow> real \<Rightarrow> string \<Rightarrow> bullet" where
  "Bullet px py d own =
     \<lparr> b_x = px, b_y = py, b_dir = d, b_owner = own, b_size = 6,
       b_speed = BULLET_SPEED, b_active = True \<rparr>"

definition out_of_bounds :: "real \<Rightarrow> real \<Rightarrow> bullet \<Rightarrow> bool" where
  "out_of_bounds WIDTH HEIGHT b =
     (b_x b < - 10 \<or> b_x b > WIDTH + 10 \<or> b_y b < - 10 \<or> b_y b > HEIGHT + 10)"

definition Bullet_move :: "bullet \<Rightarrow> bullet" where
  "Bullet_move b =
     (let b1 = b\<lparr> b_x := b_x b + cos (b_dir b) * b_speed b \<rparr>
      in b1\<lparr> b_y := b_y b1 + sin (b_dir b1) * b_speed b1 \<rparr>)"

definition Bullet_update :: "real \<Rightarrow> real \<Rightarrow> bullet \<Rightarrow> bullet" where
  "Bullet_update WIDTH HEIGHT b =
     (let b2 = Bullet_move b
      in if out_of_bounds WIDTH HEIGHT b2 then b2\<lparr> b_active := False \<rparr> else b2)"

section \<open>Tank\<close>

record tank =
  t_x :: real
  t_y :: real
  t_angle :: real
  t_size :: real
  t_color :: string
  t_isPlayer :: bool
  t_cooldown :: real
  t_speed :: real
  t_targetDirTimer :: real

definition Tank :: "real \<Rightarrow> real \<Rightarrow> string \<Rightarrow> bool \<Rightarrow> tank" where
  "Tank px py col isP =
     \<lparr> t_x = px, t_y = py, t_angle = 0, t_size = 36, t_color = col, t_isPlayer = isP,
       t_cooldown = 0, t_speed = (if isP then PLAYER_SPEED else ENEMY_SPEED),
       t_targetDirTimer = 0 \<rparr>"

text \<open>The two direction components that \<open>handlePlayerInput\<close> reads from the held keys.\<close>

definition key_dx :: "keyset \<Rightarrow> real" where
  "key_dx ks =
     (let dx = 0;
          dx = (if pressed ks ''ArrowLeft'' then dx - 1 else dx);
          dx = (if pressed ks ''ArrowRight'' then dx + 1 else dx)
      in dx)"

definition key_dy :: "keyset \<Rightarrow> real" where
  "key_dy ks =
     (let dy = 0;
          dy = (if pressed ks ''ArrowUp'' then dy - 1 else dy);
          dy = (if pressed ks ''ArrowDown'' then dy + 1 else dy)
      in dy)"

definition handlePlayerInput :: "keyset \<Rightarrow> tank \<Rightarrow> tank" where
  "handlePlayerInput ks t =
     (let dx = key_dx ks; dy = key_dy ks
      in if dx \<noteq> 0 \<or> dy \<noteq> 0 then
           let len = Math_hypot dx dy;
               dx = dx / len;
               dy = dy / len
           in t\<lparr> t_x := t_x t + dx * t_speed t,
                 t_y := t_y t + dy * t_speed t,
                 t_angle := Math_atan2 dy dx \<rparr>
         else t)"


definition handleAI :: "real \<Rightarrow> tank \<Rightarrow> random_source \<Rightarrow> tank \<times> random_source" where
  "handleAI dt t r =
     (let t1 = t\<lparr> t_targetDirTimer := t_targetDirTimer t - dt \<rparr>;
          (t2, r2) =
            (if t_targetDirTimer t1 \<le> 0 then
               (let (a, ra) = Math_random r;
                    (b, rb) = Math_random ra;
                    (c, rc) = Math_random rb;
                    dx = b * 2 - 1;
                    dy = c * 2 - 1
                in (t1\<lparr> t_targetDirTimer := 120 + a * 120, t_angle := Math_atan2 dy dx \<rparr>, rc))
             else (t1, r));
          t3 = t2\<lparr> t_x := t_x t2 + cos (t_angle t2) * t_speed t2 * 0.8 \<rparr>;
          t4 = t3\<lparr> t_y := t_y t3 + sin (t_angle t3) * t_speed t3 * 0.8 \<rparr>;
          (d, r3) = Math_random r2
      in (if d < 0.01 then t4\<lparr> t_angle := t_angle t4 + pi / 2 \<rparr> else t4, r3))"

definition Tank_update ::
  "real \<Rightarrow> real \<Rightarrow> real \<Rightarrow> keyset \<Rightarrow> tank \<Rightarrow> random_source \<Rightarrow> tank \<times> random_source" where
  "Tank_update WIDTH HEIGHT dt ks t r =
     (let (t1, r1) = (if t_isPlayer t then (handlePlayerInput ks t, r) else handleAI dt t r);
          t2 = t1\<lparr> t_cooldown := max 0 (t_cooldown t1 - dt) \<rparr>;
          t3 = t2\<lparr> t_x := clamp (t_x t2) (t_size t2 / 2) (WIDTH - t_size t2 / 2) \<rparr>;
          t4 = t3\<lparr> t_y := clamp (t_y t3) (t_size t3 / 2) (HEIGHT - t_size t3 / 2) \<rparr>
      in (t4, r1))"

definition tryShoot :: "tank \<Rightarrow> bullet list \<Rightarrow> string \<Rightarrow> tank \<times> bullet list" where
  "tryShoot t bs own =
     (if t_cooldown t > 0 then (t, bs)
      else
        let bx = t_x t + cos (t_angle t) * t_size t * 0.7;
            by = t_y t + sin (t_angle t) * t_size t * 0.7
        in (t\<lparr> t_cooldown := 40 \<rparr>, bs @ [Bullet bx by (t_angle t) own]))"

section \<open>Game\<close>

text \<open>
  The status line of the page takes one of five texts; \<open>Initial\<close> stands for whatever the
  page shows before the first transition. \<open>hudScore\<close> and \<open>hudLives\<close> are the numbers
  last written to the score and lives displays by \<open>syncHUD\<close>.
\<close>

datatype status = Initial | Fighting | Paused | Idle | Hurt | Defeated

record particle =
  p_x :: real
  p_y :: real
  p_vx :: real
  p_vy :: real
  p_life :: real
  p_color :: string

record game =
  keys :: keyset
  player :: tank
  enemies :: "tank list"
  bullets :: "bullet list"
  particles :: "particle list"
  score :: int
  lives :: int
  running :: bool
  lastTime :: real
  statusText :: status
  hudScore :: int
  hudLives :: int
  rng :: random_source

fun spawn_loop :: "nat \<Rightarrow> real \<Rightarrow> real \<Rightarrow> game \<Rightarrow> game" where
  "spawn_loop 0 WIDTH HEIGHT g = g"
| "spawn_loop (Suc n) WIDTH HEIGHT g =
     (let (a, r1) = Math_random (rng g);
          ex = 60 + a * (WIDTH - 120);
          (b, r2) = Math_random r1;
          ey = 60 + b * (HEIGHT / 2 - 60);
          enemy = Tank ex ey ''#ffb347'' False;
          (c, r3) = Math_random r2;
          enemy = enemy\<lparr> t_angle := c * pi * 2 \<rparr>
      in spawn_loop n WIDTH HEIGHT (g\<lparr> enemies := enemies g @ [enemy], rng := r3 \<rparr>))"

definition spawnEnemies :: "real \<Rightarrow> real \<Rightarrow> game \<Rightarrow> game" where
  "spawnEnemies WIDTH HEIGHT g = spawn_loop ENEMY_COUNT WIDTH HEIGHT (g\<lparr> enemies := [] \<rparr>)"

definition syncHUD :: "game \<Rightarrow> game" where
  "syncHUD g = g\<lparr> hudScore := score g, hudLives := lives g \<rparr>"

definition start :: "game \<Rightarrow> game" where
  "start g = g\<lparr> running := True, statusText := Fighting \<rparr>"

definition togglePause :: "game \<Rightarrow> game" where
  "togglePause g =
     (let g1 = g\<lparr> running := \<not> running g \<rparr>
      in g1\<lparr> statusText := (if running g1 then Fighting else Paused) \<rparr>)"

definition reset :: "real \<Rightarrow> real \<Rightarrow> game \<Rightarrow> game" where
  "reset WIDTH HEIGHT g =
     (let g1 = g\<lparr> player := Tank (WIDTH / 2) (HEIGHT - 80) ''#5ec8ff'' True,
                   bullets := [], particles := [], score := 0, lives := PLAYER_MAX_LIVES \<rparr>;
          g2 = spawnEnemies WIDTH HEIGHT g1;
          g3 = g2\<lparr> running := False, statusText := Idle \<rparr>
      in syncHUD g3)"

definition gameOver :: "game \<Rightarrow> game" where
  "gameOver g = g\<lparr> running := False, statusText := Defeated \<rparr>"

text \<open>
  The constructor. The page's timer that calls \<open>start\<close> 200 ms later and the first
  animation frame are events of their own (see \<open>step\<close> below).
\<close>

definition Game :: "real \<Rightarrow> real \<Rightarrow> random_source \<Rightarrow> game" where
  "Game WIDTH HEIGHT r =
     (let g = \<lparr> keys = {}, player = Tank (WIDTH / 2) (HEIGHT - 80) ''#5ec8ff'' True,
                enemies = [], bullets = [], particles = [], score = 0,
                lives = PLAYER_MAX_LIVES, running = False, lastTime = 0,
                statusText = Initial, hudScore = 0, hudLives = 0, rng = r \<rparr>
      in syncHUD (spawnEnemies WIDTH HEIGHT g))"

fun particle_loop :: "nat \<Rightarrow> real \<Rightarrow> real \<Rightarrow> string \<Rightarrow> game \<Rightarrow> game" where
  "particle_loop 0 px py col g = g"
| "particle_loop (Suc n) px py col g =
     (let (a, r1) = Math_random (rng g);
          (b, r2) = Math_random r1;
          (c, r3) = Math_random r2;
          p = \<lparr> p_x = px, p_y = py, p_vx = (a * 2 - 1) * 2, p_vy = (b * 2 - 1) * 2,
                p_life = 30 + c * 20, p_color = col \<rparr>
      in particle_loop n px py col (g\<lparr> particles := particles g @ [p], rng := r3 \<rparr>))"

definition addParticles :: "real \<Rightarrow> real \<Rightarrow> string \<Rightarrow> game \<Rightarrow> game" where
  "addParticles px py col g = particle_loop 10 px py col g"

definition updateParticles :: "game \<Rightarrow> game" where
  "updateParticles g =
     (let ps = map (\<lambda>p. p\<lparr> p_x := p_x p + p_vx p, p_y := p_y p + p_vy p,
                            p_life := p_life p - 1 \<rparr>) (particles g)
      in g\<lparr> particles := filter (\<lambda>p. p_life p > 0) ps \<rparr>)"

subsection \<open>Collision resolution\<close>

text \<open>
  The first \<open>forEach\<close> of \<open>handleCollisions\<close>: the player against every enemy tank. The
  enemies are objects changed in place, so the scan returns the list with the marked
  enemies, the \<open>collided\<close> flag and the game with score, particles and random source
  updated.
\<close>

definition touches :: "tank \<Rightarrow> tank \<Rightarrow> bool" where
  "touches p e = (Math_hypot (t_x p - t_x e) (t_y p - t_y e) < (t_size p + t_size e) / 2)"

fun tank_scan :: "tank list \<Rightarrow> bool \<Rightarrow> game \<Rightarrow> tank list \<times> bool \<times> game" where
  "tank_scan [] collided g = ([], collided, g)"
| "tank_scan (e # es) collided g =
     (if touches (player g) e then
        let g1 = addParticles (t_x e) (t_y e) (t_color e) g;
            g2 = addParticles (t_x (player g1)) (t_y (player g1)) (t_color (player g1)) g1;
            g3 = g2\<lparr> score := score g2 + 100 \<rparr>;
            e1 = e\<lparr> t_x := - 9999 \<rparr>;
            (es', collided', g') = tank_scan es True g3
        in (e1 # es', collided', g')
      else
        let (es', collided', g') = tank_scan es collided g
        in (e # es', collided', g'))"

text \<open>
  What follows a lost life in the bullet part: game over at zero lives or below, otherwise
  the player goes back to the start position. The tank part does the same inline and also
  sets the status line.
\<close>

definition respawn_or_end :: "real \<Rightarrow> real \<Rightarrow> game \<Rightarrow> game" where
  "respawn_or_end WIDTH HEIGHT g =
     (if lives g \<le> 0 then gameOver g
      else g\<lparr> player := (player g)\<lparr> t_x := WIDTH / 2, t_y := HEIGHT - 80 \<rparr> \<rparr>)"

definition tank_phase :: "real \<Rightarrow> real \<Rightarrow> game \<Rightarrow> game" where
  "tank_phase WIDTH HEIGHT g =
     (let (es, collided, g1) = tank_scan (enemies g) False g;
          g2 = g1\<lparr> enemies := es \<rparr>
      in if collided then
           let g3 = g2\<lparr> enemies := filter (\<lambda>e. t_x e > 0) (enemies g2) \<rparr>;
               g4 = g3\<lparr> lives := lives g3 - 1 \<rparr>
           in if lives g4 \<le> 0 then gameOver g4
              else g4\<lparr> player := (player g4)\<lparr> t_x := WIDTH / 2, t_y := HEIGHT - 80 \<rparr>,
                        statusText := Hurt \<rparr>
         else g2)"

text \<open>
  The inner \<open>forEach\<close> of the second part: one player bullet against every enemy. Once
  the bullet is inactive every remaining callback returns at once.
\<close>

definition strikes :: "bullet \<Rightarrow> tank \<Rightarrow> bool" where
  "strikes b e = (Math_hypot (b_x b - t_x e) (b_y b - t_y e) < t_size e / 2)"

fun enemy_scan :: "bullet \<Rightarrow> tank list \<Rightarrow> game \<Rightarrow> bullet \<times> tank list \<times> game" where
  "enemy_scan b [] g = (b, [], g)"
| "enemy_scan b (e # es) g =
     (if \<not> b_active b then
        let (b', es', g') = enemy_scan b es g in (b', e # es', g')
      else if strikes b e then
        let b1 = b\<lparr> b_active := False \<rparr>;
            g1 = g\<lparr> score := score g + 100 \<rparr>;
            g2 = addParticles (t_x e) (t_y e) (t_color e) g1;
            e1 = e\<lparr> t_x := - 9999 \<rparr>;
            (b', es', g') = enemy_scan b1 es g2
        in (b', e1 # es', g')
      else
        let (b', es', g') = enemy_scan b es g in (b', e # es', g'))"

definition hits_player :: "bullet \<Rightarrow> tank \<Rightarrow> bool" where
  "hits_player b p = (Math_hypot (b_x b - t_x p) (b_y b - t_y p) < t_size p / 2)"

text \<open>The callback of the outer \<open>forEach\<close>, for one bullet.\<close>

definition bullet_step :: "real \<Rightarrow> real \<Rightarrow> bullet \<Rightarrow> game \<Rightarrow> bullet \<times> game" where
  "bullet_step WIDTH HEIGHT b g =
     (if \<not> b_active b then (b, g)
      else if b_owner b = ''player'' then
        let (b', es, g1) = enemy_scan b (enemies g) g;
            g2 = g1\<lparr> enemies := es \<rparr>
        in (b', g2\<lparr> enemies := filter (\<lambda>e. t_x e > 0) (enemies g2) \<rparr>)
      else if b_owner b = ''enemy'' then
        (if hits_player b (player g) then
           let b1 = b\<lparr> b_active := False \<rparr>;
               g1 = addParticles (t_x (player g)) (t_y (player g)) (t_color (player g)) g;
               g2 = g1\<lparr> lives := lives g1 - 1 \<rparr>
           in (b1, respawn_or_end WIDTH HEIGHT g2)
         else (b, g))
      else (b, g))"

fun bullet_scan :: "real \<Rightarrow> real \<Rightarrow> bullet list \<Rightarrow> game \<Rightarrow> bullet list \<times> game" where
  "bullet_scan WIDTH HEIGHT [] g = ([], g)"
| "bullet_scan WIDTH HEIGHT (b # bs) g =
     (let (b', g1) = bullet_step WIDTH HEIGHT b g;
          (bs', g2) = bullet_scan WIDTH HEIGHT bs g1
      in (b' # bs', g2))"

definition bullet_phase :: "real \<Rightarrow> real \<Rightarrow> game \<Rightarrow> game" where
  "bullet_phase WIDTH HEIGHT g =
     (let (bs, g1) = bullet_scan WIDTH HEIGHT (bullets g) g
      in g1\<lparr> bullets := bs \<rparr>)"

definition handleCollisions :: "real \<Rightarrow> real \<Rightarrow> game \<Rightarrow> game" where
  "handleCollisions WIDTH HEIGHT g =
     syncHUD (bullet_phase WIDTH HEIGHT (tank_phase WIDTH HEIGHT g))"

subsection \<open>The frame\<close>

fun update_enemies :: "real \<Rightarrow> real \<Rightarrow> real \<Rightarrow> tank list \<Rightarrow> game \<Rightarrow> tank list \<times> game" where
  "update_enemies WIDTH HEIGHT dt [] g = ([], g)"
| "update_enemies WIDTH HEIGHT dt (e # es) g =
     (let (e1, r1) = Tank_update WIDTH HEIGHT dt (keys g) e (rng g);
          (d, r2) = Math_random r1;
          (e2, bs) = (if d < 0.01 then tryShoot e1 (bullets g) ''enemy'' else (e1, bullets g));
          g1 = g\<lparr> bullets := bs, rng := r2 \<rparr>;
          (es', g') = update_enemies WIDTH HEIGHT dt es g1
      in (e2 # es', g'))"

text \<open>The first three steps of \<open>update\<close>: player, enemies, bullets.\<close>

definition move_all :: "real \<Rightarrow> real \<Rightarrow> real \<Rightarrow> game \<Rightarrow> game" where
  "move_all WIDTH HEIGHT dt g =
     (let (p, r) = Tank_update WIDTH HEIGHT dt (keys g) (player g) (rng g);
          g1 = g\<lparr> player := p, rng := r \<rparr>;
          (es, g2) = update_enemies WIDTH HEIGHT dt (enemies g1) g1;
          g3 = g2\<lparr> enemies := es \<rparr>
      in g3\<lparr> bullets := map (Bullet_update WIDTH HEIGHT) (bullets g3) \<rparr>)"

text \<open>\<open>update\<close> up to and including the removal of inactive bullets.\<close>

definition resolve :: "real \<Rightarrow> real \<Rightarrow> real \<Rightarrow> game \<Rightarrow> game" where
  "resolve WIDTH HEIGHT dt g =
     (let g1 = handleCollisions WIDTH HEIGHT (move_all WIDTH HEIGHT dt g)
      in g1\<lparr> bullets := filter b_active (bullets g1) \<rparr>)"

definition update :: "real \<Rightarrow> real \<Rightarrow> real \<Rightarrow> game \<Rightarrow> game" where
  "update WIDTH HEIGHT dt g =
     (let g1 = resolve WIDTH HEIGHT dt g
      in if length (enemies g1) = 0 then spawnEnemies WIDTH HEIGHT g1 else g1)"

text \<open>Of \<open>draw\<close> only \<open>updateParticles\<close> changes the state.\<close>

definition draw :: "game \<Rightarrow> game" where
  "draw g = updateParticles g"

definition loop :: "real \<Rightarrow> real \<Rightarrow> real \<Rightarrow> game \<Rightarrow> game" where
  "loop WIDTH HEIGHT timestamp g =
     (let dt = timestamp - lastTime g;
          g1 = g\<lparr> lastTime := timestamp \<rparr>;
          g2 = (if running g1 then update WIDTH HEIGHT dt g1 else g1)
      in draw g2)"

subsection \<open>Events\<close>

text \<open>
  Everything that can happen to a game after its construction: key events (first the
  listener of \<open>Input\<close>, then the one of \<open>bindUI\<close>), the clicks, the start timer and the
  animation frame.
\<close>

datatype event =
  KeyDown string | KeyUp string | CanvasClick | StartClick | PauseClick | ResetClick
  | StartTimer | Frame real

definition keydown :: "real \<Rightarrow> real \<Rightarrow> string \<Rightarrow> game \<Rightarrow> game" where
  "keydown WIDTH HEIGHT code g =
     (let g1 = g\<lparr> keys := insert code (keys g) \<rparr>;
          g2 = (if code = ''Space'' then
                  let (p, bs) = tryShoot (player g1) (bullets g1) ''player''
                  in g1\<lparr> player := p, bullets := bs \<rparr>
                else g1)
      in if code = ''KeyR'' then reset WIDTH HEIGHT g2 else g2)"

fun step :: "real \<Rightarrow> real \<Rightarrow> event \<Rightarrow> game \<Rightarrow> game" where
  "step WIDTH HEIGHT (KeyDown code) g = keydown WIDTH HEIGHT code g"
| "step WIDTH HEIGHT (KeyUp code) g = g\<lparr> keys := keys g - {code} \<rparr>"
| "step WIDTH HEIGHT CanvasClick g = start g"
| "step WIDTH HEIGHT StartClick g = start g"
| "step WIDTH HEIGHT PauseClick g = togglePause g"
| "step WIDTH HEIGHT ResetClick g = reset WIDTH HEIGHT g"
| "step WIDTH HEIGHT StartTimer g = start g"
| "step WIDTH HEIGHT (Frame timestamp) g = loop WIDTH HEIGHT timestamp g"

fun run :: "real \<Rightarrow> real \<Rightarrow> event list \<Rightarrow> game \<Rightarrow> game" where
  "run WIDTH HEIGHT [] g = g"
| "run WIDTH HEIGHT (ev # evs) g = run WIDTH HEIGHT evs (step WIDTH HEIGHT ev g)"

subsection \<open>Measures\<close>

text \<open>The number of bullets that can still wound the player.\<close>

definition enemy_shots :: "bullet list \<Rightarrow> nat" where
  "enemy_shots bs = length (filter (\<lambda>b. b_active b \<and> b_owner b = ''enemy'') bs)"

section \<open>Example states\<close>

text \<open>
  A playfield of 800 by 600 and a random source that always returns one half (so that no
  enemy fires and no enemy turns) are used for the concrete runs below.
\<close>

definition half :: random_source where
  "half = (\<lambda>n. 1 / 2)"

definition base_game :: game where
  "base_game =
     \<lparr> keys = {}, player = Tank 400 520 ''#5ec8ff'' True, enemies = [], bullets = [],
       particles = [], score = 0, lives = 3, running = True, lastTime = 0,
       statusText = Fighting, hudScore = 0, hudLives = 3, rng = half \<rparr>"

text \<open>An enemy that keeps its heading during the next 16 ms frame.\<close>

definition enemy_at :: "real \<Rightarrow> real \<Rightarrow> tank" where
  "enemy_at px py = (Tank px py ''#ffb347'' False)\<lparr> t_targetDirTimer := 100 \<rparr>"

text \<open>The last enemy stands on the player.\<close>

definition ram_game :: game where
  "ram_game = base_game\<lparr> enemies := [enemy_at 400 520] \<rparr>"

text \<open>Two enemy bullets that reach the player's position in the next frame.\<close>

definition shot :: bullet where
  "shot = Bullet 394 520 0 ''enemy''"

definition two_shots :: game where
  "two_shots = base_game\<lparr> enemies := [enemy_at 100 100], bullets := [shot, shot] \<rparr>"

definition last_life :: game where
  "last_life = two_shots\<lparr> lives := 1 \<rparr>"


text \<open>One enemy on the player, and a player bullet on a second enemy.\<close>

definition melee :: game where
  "melee = base_game\<lparr> enemies := [enemy_at 400 520, enemy_at 200 200],
                       bullets := [Bullet 200 200 0 ''player''] \<rparr>"

text \<open>One player bullet within reach of two enemies.\<close>

definition pierce :: game where
  "pierce = base_game\<lparr> enemies := [enemy_at 200 200, enemy_at 205 200],
                        bullets := [Bullet 202 200 0 ''player''] \<rparr>"

text \<open>A finished game: no lives, not running.\<close>

definition over_game :: game where
  "over_game = gameOver (base_game\<lparr> lives := 0 \<rparr>)"

text \<open>
  The last life, the up key held, and an enemy bullet that reaches the player in the next
  frame.
\<close>

definition dying :: game where
  "dying = base_game\<lparr> keys := {''ArrowUp''}, lives := 1, enemies := [enemy_at 100 100],
                       bullets := [shot] \<rparr>"

section \<open>Auxiliary facts\<close>

subsection \<open>What the helpers leave alone\<close>


lemma particle_loop_frame:
  "keys (particle_loop n a b c g) = keys g"
  "player (particle_loop n a b c g) = player g"
  "enemies (particle_loop n a b c g) = enemies g"
  "bullets (particle_loop n a b c g) = bullets g"
  "score (particle_loop n a b c g) = score g"
  "lives (particle_loop n a b c g) = lives g"
  "running (particle_loop n a b c g) = running g"
  "lastTime (particle_loop n a b c g) = lastTime g"
  "statusText (particle_loop n a b c g) = statusText g"
  by (induction n arbitrary: g; simp add: Math_random_def)+

lemma addParticles_frame [simp]:
  "keys (addParticles a b c g) = keys g"
  "player (addParticles a b c g) = player g"
  "enemies (addParticles a b c g) = enemies g"
  "bullets (addParticles a b c g) = bullets g"
  "score (addParticles a b c g) = score g"
  "lives (addParticles a b c g) = lives g"
  "running (addParticles a b c g) = running g"
  "lastTime (addParticles a b c g) = lastTime g"
  "statusText (addParticles a b c g) = statusText g"
  by (simp_all add: addParticles_def particle_loop_frame)

lemma spawn_loop_frame:
  "keys (spawn_loop n W H g) = keys g"
  "player (spawn_loop n W H g) = player g"
  "bullets (spawn_loop n W H g) = bullets g"
  "particles (spawn_loop n W H g) = particles g"
  "score (spawn_loop n W H g) = score g"
  "lives (spawn_loop n W H g) = lives g"
  "running (spawn_loop n W H g) = running g"
  "lastTime (spawn_loop n W H g) = lastTime g"
  "statusText (spawn_loop n W H g) = statusText g"
  by (induction n arbitrary: g; simp add: Math_random_def)+

lemma spawn_loop_length:
  "length (enemies (spawn_loop n W H g)) = length (enemies g) + n"
  by (induction n arbitrary: g) (simp_all add: Math_random_def)

lemma spawnEnemies_frame [simp]:
  "keys (spawnEnemies W H g) = keys g"
  "player (spawnEnemies W H g) = player g"
  "bullets (spawnEnemies W H g) = bullets g"
  "particles (spawnEnemies W H g) = particles g"
  "score (spawnEnemies W H g) = score g"
  "lives (spawnEnemies W H g) = lives g"
  "running (spawnEnemies W H g) = running g"
  "lastTime (spawnEnemies W H g) = lastTime g"
  "statusText (spawnEnemies W H g) = statusText g"
  by (simp_all add: spawnEnemies_def spawn_loop_frame)

lemma spawnEnemies_length:
  "length (enemies (spawnEnemies W H g)) = 5"
  by (simp add: spawnEnemies_def spawn_loop_length ENEMY_COUNT_def)

lemma tank_scan_frame:
  "tank_scan es c g = (es', c', g') \<Longrightarrow>
     keys g' = keys g \<and> player g' = player g \<and> enemies g' = enemies g \<and> bullets g' = bullets g \<and>
     lives g' = lives g \<and> running g' = running g \<and> lastTime g' = lastTime g \<and>
     statusText g' = statusText g"
proof (induction es arbitrary: c g es' c' g')
  case Nil
  then show ?case by simp
next
  case (Cons e es)
  show ?case
  proof (cases "touches (player g) e")
    case True
    with Cons.prems obtain es2 where
      "tank_scan es True ((addParticles (t_x (player g)) (t_y (player g)) (t_color (player g))
          (addParticles (t_x e) (t_y e) (t_color e) g))\<lparr> score := score g + 100 \<rparr>) = (es2, c', g')"
      by (auto simp: Let_def split: prod.splits)
    from Cons.IH [OF this] show ?thesis by simp
  next
    case False
    with Cons.prems obtain es2 where "tank_scan es c g = (es2, c', g')"
      by (auto simp: Let_def split: prod.splits)
    from Cons.IH [OF this] show ?thesis by simp
  qed
qed


lemma tank_scan_result:
  "tank_scan es c g = (es', c', g') \<Longrightarrow>
     es' = map (\<lambda>e. if touches (player g) e then e\<lparr> t_x := - 9999 \<rparr> else e) es \<and>
     c' = (c \<or> (\<exists>e\<in>set es. touches (player g) e)) \<and>
     score g' = score g + 100 * int (length (filter (touches (player g)) es))"
proof (induction es arbitrary: c g es' c' g')
  case Nil
  then show ?case by simp
next
  case (Cons e es)
  show ?case
  proof (cases "touches (player g) e")
    case True
    let ?g3 = "(addParticles (t_x (player g)) (t_y (player g)) (t_color (player g))
          (addParticles (t_x e) (t_y e) (t_color e) g))\<lparr> score := score g + 100 \<rparr>"
    from True Cons.prems obtain es2 where
      s: "tank_scan es True ?g3 = (es2, c', g')" and e: "es' = e\<lparr> t_x := - 9999 \<rparr> # es2"
      by (auto simp: Let_def split: prod.splits)
    from Cons.IH [OF s] True e show ?thesis by simp
  next
    case False
    with Cons.prems obtain es2 where s: "tank_scan es c g = (es2, c', g')" and e: "es' = e # es2"
      by (auto simp: Let_def split: prod.splits)
    from Cons.IH [OF s] False e show ?thesis by simp
  qed
qed


subsection \<open>One player bullet against the roster\<close>


lemma enemy_scan_inactive:
  "\<not> b_active b \<Longrightarrow> enemy_scan b es g = (b, es, g)"
  by (induction es) simp_all

lemma enemy_scan_hit_here:
  "b_active b \<Longrightarrow> strikes b e \<Longrightarrow>
     enemy_scan b (e # es) g =
       (b\<lparr> b_active := False \<rparr>, e\<lparr> t_x := - 9999 \<rparr> # es,
        addParticles (t_x e) (t_y e) (t_color e) (g\<lparr> score := score g + 100 \<rparr>))"
  by (simp add: enemy_scan_inactive)

lemma enemy_scan_miss_all:
  "b_active b \<Longrightarrow> \<forall>e\<in>set es. \<not> strikes b e \<Longrightarrow> enemy_scan b es g = (b, es, g)"
  by (induction es) simp_all

lemma enemy_scan_first_hit:
  assumes "b_active b" and "\<forall>e\<in>set pre. \<not> strikes b e" and "strikes b e"
  shows "enemy_scan b (pre @ e # post) g =
           (b\<lparr> b_active := False \<rparr>, pre @ e\<lparr> t_x := - 9999 \<rparr> # post,
            addParticles (t_x e) (t_y e) (t_color e) (g\<lparr> score := score g + 100 \<rparr>))"
  using assms by (induction pre) (simp_all add: enemy_scan_inactive)

lemma first_strike_split:
  assumes "\<exists>e\<in>set es. strikes b e"
  obtains pre e post where "es = pre @ e # post" "\<forall>e'\<in>set pre. \<not> strikes b e'" "strikes b e"
  using assms split_list_first_prop [of es "strikes b"] by blast


lemma enemy_scan_cases:
  assumes "b_active b"
  obtains
    (miss) "\<forall>e\<in>set es. \<not> strikes b e" "enemy_scan b es g = (b, es, g)"
  | (hit) pre e post where "es = pre @ e # post" "\<forall>e'\<in>set pre. \<not> strikes b e'" "strikes b e"
      "enemy_scan b es g =
           (b\<lparr> b_active := False \<rparr>, pre @ e\<lparr> t_x := - 9999 \<rparr> # post,
            addParticles (t_x e) (t_y e) (t_color e) (g\<lparr> score := score g + 100 \<rparr>))"
proof (cases "\<exists>e\<in>set es. strikes b e")
  case True
  then obtain pre e post where
    s: "es = pre @ e # post" "\<forall>e'\<in>set pre. \<not> strikes b e'" "strikes b e"
    by (rule first_strike_split)
  from enemy_scan_first_hit [OF assms s(2) s(3)] s hit show ?thesis by blast
next
  case False
  with assms enemy_scan_miss_all miss show ?thesis by blast
qed

text \<open>The callback for one bullet, case by case.\<close>

lemma bullet_step_inactive:
  "\<not> b_active b \<Longrightarrow> bullet_step W H b g = (b, g)"
  by (simp add: bullet_step_def)

lemma bullet_step_player_miss:
  "b_active b \<Longrightarrow> b_owner b = ''player'' \<Longrightarrow> \<forall>e\<in>set (enemies g). \<not> strikes b e \<Longrightarrow>
     bullet_step W H b g = (b, g\<lparr> enemies := filter (\<lambda>e. t_x e > 0) (enemies g) \<rparr>)"
  by (simp add: bullet_step_def enemy_scan_miss_all)

lemma bullet_step_player_hit:
  "b_active b \<Longrightarrow> b_owner b = ''player'' \<Longrightarrow> enemies g = pre @ e # post \<Longrightarrow>
   \<forall>e'\<in>set pre. \<not> strikes b e' \<Longrightarrow> strikes b e \<Longrightarrow>
     bullet_step W H b g =
       (b\<lparr> b_active := False \<rparr>,
        (addParticles (t_x e) (t_y e) (t_color e) (g\<lparr> score := score g + 100 \<rparr>))
          \<lparr> enemies := filter (\<lambda>e. t_x e > 0) pre @ filter (\<lambda>e. t_x e > 0) post \<rparr>)"
  by (simp add: bullet_step_def enemy_scan_first_hit)

lemma bullet_step_enemy_hit:
  "b_active b \<Longrightarrow> b_owner b = ''enemy'' \<Longrightarrow> hits_player b (player g) \<Longrightarrow>
     bullet_step W H b g =
       (b\<lparr> b_active := False \<rparr>,
        respawn_or_end W H
          ((addParticles (t_x (player g)) (t_y (player g)) (t_color (player g)) g)
             \<lparr> lives := lives g - 1 \<rparr>))"
  by (simp add: bullet_step_def)

lemma bullet_step_other:
  "b_owner b \<noteq> ''player'' \<Longrightarrow> \<not> (b_owner b = ''enemy'' \<and> hits_player b (player g)) \<Longrightarrow>
     bullet_step W H b g = (b, g)"
  by (auto simp add: bullet_step_def)

lemma bullet_step_cases:
  obtains
    (idle) "bullet_step W H b g = (b, g)"
      "\<not> b_active b \<or> (b_owner b \<noteq> ''player'' \<and> \<not> (b_owner b = ''enemy'' \<and> hits_player b (player g)))"
  | (miss) "b_active b" "b_owner b = ''player''" "\<forall>e\<in>set (enemies g). \<not> strikes b e"
      "bullet_step W H b g = (b, g\<lparr> enemies := filter (\<lambda>e. t_x e > 0) (enemies g) \<rparr>)"
  | (hit) pre e post where "b_active b" "b_owner b = ''player''" "enemies g = pre @ e # post"
      "\<forall>e'\<in>set pre. \<not> strikes b e'" "strikes b e"
      "bullet_step W H b g =
       (b\<lparr> b_active := False \<rparr>,
        (addParticles (t_x e) (t_y e) (t_color e) (g\<lparr> score := score g + 100 \<rparr>))
          \<lparr> enemies := filter (\<lambda>e. t_x e > 0) pre @ filter (\<lambda>e. t_x e > 0) post \<rparr>)"
  | (wound) "b_active b" "b_owner b = ''enemy''" "hits_player b (player g)"
      "bullet_step W H b g =
       (b\<lparr> b_active := False \<rparr>,
        respawn_or_end W H
          ((addParticles (t_x (player g)) (t_y (player g)) (t_color (player g)) g)
             \<lparr> lives := lives g - 1 \<rparr>))"
proof (cases "b_active b")
  case False
  then show ?thesis using idle bullet_step_inactive by blast
next
  case act: True
  show ?thesis
  proof (cases "b_owner b = ''player''")
    case True
    show ?thesis
    proof (cases "\<exists>e\<in>set (enemies g). strikes b e")
      case True
      then obtain pre e post where
        s: "enemies g = pre @ e # post" "\<forall>e'\<in>set pre. \<not> strikes b e'" "strikes b e"
        by (rule first_strike_split)
      from bullet_step_player_hit [OF act \<open>b_owner b = ''player''\<close> s] act \<open>b_owner b = ''player''\<close> s hit
      show ?thesis by blast
    next
      case False
      with act \<open>b_owner b = ''player''\<close> bullet_step_player_miss miss show ?thesis by blast
    qed
  next
    case np: False
    show ?thesis
    proof (cases "b_owner b = ''enemy'' \<and> hits_player b (player g)")
      case True
      with act bullet_step_enemy_hit wound show ?thesis by blast
    next
      case False
      with np bullet_step_other idle show ?thesis by blast
    qed
  qed
qed

lemma respawn_or_end_frame [simp]:
  "keys (respawn_or_end W H g) = keys g"
  "enemies (respawn_or_end W H g) = enemies g"
  "bullets (respawn_or_end W H g) = bullets g"
  "particles (respawn_or_end W H g) = particles g"
  "score (respawn_or_end W H g) = score g"
  "lives (respawn_or_end W H g) = lives g"
  "lastTime (respawn_or_end W H g) = lastTime g"
  "running (respawn_or_end W H g) = (running g \<and> 0 < lives g)"
  by (auto simp: respawn_or_end_def gameOver_def)


subsection \<open>The tank phase\<close>

lemma tank_phase_lives:
  "lives (tank_phase W H g) = lives g - (if \<exists>e\<in>set (enemies g). touches (player g) e then 1 else 0)"
proof -
  obtain es c g1 where s: "tank_scan (enemies g) False g = (es, c, g1)"
    by (cases "tank_scan (enemies g) False g")
  from tank_scan_frame [OF s] tank_scan_result [OF s] s show ?thesis
    by (simp add: tank_phase_def Let_def gameOver_def)
qed

lemma tank_phase_running:
  "running (tank_phase W H g) =
     (running g \<and> \<not> ((\<exists>e\<in>set (enemies g). touches (player g) e) \<and> lives g \<le> 1))"
proof -
  obtain es c g1 where s: "tank_scan (enemies g) False g = (es, c, g1)"
    by (cases "tank_scan (enemies g) False g")
  from tank_scan_frame [OF s] tank_scan_result [OF s] s show ?thesis
    by (auto simp add: tank_phase_def Let_def gameOver_def)
qed

lemma tank_phase_bullets: "bullets (tank_phase W H g) = bullets g"
proof -
  obtain es c g1 where s: "tank_scan (enemies g) False g = (es, c, g1)"
    by (cases "tank_scan (enemies g) False g")
  from tank_scan_frame [OF s] tank_scan_result [OF s] s show ?thesis
    by (simp add: tank_phase_def Let_def gameOver_def)
qed

lemma tank_phase_score:
  "score (tank_phase W H g) = score g + 100 * int (length (filter (touches (player g)) (enemies g)))"
proof -
  obtain es c g1 where s: "tank_scan (enemies g) False g = (es, c, g1)"
    by (cases "tank_scan (enemies g) False g")
  from tank_scan_frame [OF s] tank_scan_result [OF s] s show ?thesis
    by (simp add: tank_phase_def Let_def gameOver_def)
qed

lemma filter_marked:
  "filter (\<lambda>e. 0 < t_x e) (map (\<lambda>e. if P e then e\<lparr> t_x := - 9999 \<rparr> else e) es) =
   filter (\<lambda>e. 0 < t_x e \<and> \<not> P e) es"
  by (induction es) simp_all

lemma tank_phase_enemies:
  "enemies (tank_phase W H g) =
     (if \<exists>e\<in>set (enemies g). touches (player g) e
      then filter (\<lambda>e. 0 < t_x e \<and> \<not> touches (player g) e) (enemies g)
      else enemies g)"
proof -
  obtain es c g1 where s: "tank_scan (enemies g) False g = (es, c, g1)"
    by (cases "tank_scan (enemies g) False g")
  have "map (\<lambda>e. if touches (player g) e then e\<lparr> t_x := - 9999 \<rparr> else e) (enemies g) = enemies g"
    if "\<forall>e\<in>set (enemies g). \<not> touches (player g) e"
    using that by (induction "enemies g") (simp_all add: map_idI)
  with tank_scan_frame [OF s] tank_scan_result [OF s] s show ?thesis
    by (auto simp add: tank_phase_def Let_def gameOver_def filter_marked)
qed

lemma length_filter_split:
  "length (filter (\<lambda>e. Q e \<and> \<not> P e) es) + length (filter P es) \<le> length es"
  by (induction es) auto

lemma length_filter_split_eq:
  "\<forall>e\<in>set es. Q e \<Longrightarrow> length (filter (\<lambda>e. Q e \<and> \<not> P e) es) + length (filter P es) = length es"
  by (induction es) auto

text \<open>Score plus 100 for every enemy still on the roster never grows in the tank phase,
  and is constant when no enemy is left of the playfield.\<close>

lemma tank_phase_potential_le:
  "score (tank_phase W H g) + 100 * int (length (enemies (tank_phase W H g)))
     \<le> score g + 100 * int (length (enemies g))"
proof (cases "\<exists>e\<in>set (enemies g). touches (player g) e")
  case True
  have "length (filter (\<lambda>e. 0 < t_x e \<and> \<not> touches (player g) e) (enemies g)) +
          length (filter (touches (player g)) (enemies g)) \<le> length (enemies g)"
    by (rule length_filter_split)
  with True show ?thesis by (simp add: tank_phase_score tank_phase_enemies)
next
  case False
  then have "filter (touches (player g)) (enemies g) = []" by (simp add: filter_empty_conv)
  with False show ?thesis by (simp add: tank_phase_score tank_phase_enemies)
qed

lemma tank_phase_potential_eq:
  assumes "\<forall>e\<in>set (enemies g). 0 < t_x e"
  shows "score (tank_phase W H g) + 100 * int (length (enemies (tank_phase W H g)))
     = score g + 100 * int (length (enemies g))"
proof (cases "\<exists>e\<in>set (enemies g). touches (player g) e")
  case True
  have "length (filter (\<lambda>e. 0 < t_x e \<and> \<not> touches (player g) e) (enemies g)) +
          length (filter (touches (player g)) (enemies g)) = length (enemies g)"
    using assms by (rule length_filter_split_eq)
  with True show ?thesis by (simp add: tank_phase_score tank_phase_enemies)
next
  case False
  then have "filter (touches (player g)) (enemies g) = []" by (simp add: filter_empty_conv)
  with False show ?thesis by (simp add: tank_phase_score tank_phase_enemies)
qed

lemma tank_phase_positive:
  "\<forall>e\<in>set (enemies g). 0 < t_x e \<Longrightarrow> \<forall>e\<in>set (enemies (tank_phase W H g)). 0 < t_x e"
  by (simp add: tank_phase_enemies)

lemma tank_phase_subset: "set (enemies (tank_phase W H g)) \<subseteq> set (enemies g)"
  by (auto simp add: tank_phase_enemies)

subsection \<open>The callback for one bullet\<close>

lemma bullet_step_lives:
  "lives (snd (bullet_step W H b g)) =
     lives g - (if b_active b \<and> b_owner b = ''enemy'' \<and> hits_player b (player g) then 1 else 0)"
  by (cases rule: bullet_step_cases [of W H b g]) auto

lemma bullet_step_score:
  "score (snd (bullet_step W H b g)) =
     score g + (if b_active b \<and> b_owner b = ''player'' \<and> (\<exists>e\<in>set (enemies g). strikes b e)
                then 100 else 0)"
  by (cases rule: bullet_step_cases [of W H b g]) auto

lemma bullet_step_active:
  "b_active (fst (bullet_step W H b g)) =
     (b_active b \<and> \<not> (b_owner b = ''player'' \<and> (\<exists>e\<in>set (enemies g). strikes b e))
                \<and> \<not> (b_owner b = ''enemy'' \<and> hits_player b (player g)))"
  by (cases rule: bullet_step_cases [of W H b g]) auto

lemma bullet_step_bullet:
  "fst (bullet_step W H b g) = b \<or>
   (b_active b \<and> fst (bullet_step W H b g) = b\<lparr> b_active := False \<rparr>)"
  by (cases rule: bullet_step_cases [of W H b g]) auto

lemma bullet_step_running:
  "running (snd (bullet_step W H b g)) =
     (running g \<and> \<not> (b_active b \<and> b_owner b = ''enemy'' \<and> hits_player b (player g) \<and> lives g \<le> 1))"
  by (cases rule: bullet_step_cases [of W H b g]) auto

lemma bullet_step_bullets: "bullets (snd (bullet_step W H b g)) = bullets g"
  by (cases rule: bullet_step_cases [of W H b g]) auto

lemma bullet_step_subset: "set (enemies (snd (bullet_step W H b g))) \<subseteq> set (enemies g)"
  by (cases rule: bullet_step_cases [of W H b g]) auto

lemma bullet_step_positive:
  "\<forall>e\<in>set (enemies g). 0 < t_x e \<Longrightarrow> \<forall>e\<in>set (enemies (snd (bullet_step W H b g))). 0 < t_x e"
  using bullet_step_subset [of W H b g] by blast

lemma bullet_step_potential_le:
  "score (snd (bullet_step W H b g)) + 100 * int (length (enemies (snd (bullet_step W H b g))))
     \<le> score g + 100 * int (length (enemies g))"
proof (cases rule: bullet_step_cases [of W H b g])
  case idle
  then show ?thesis by simp
next
  case miss
  have "length (filter (\<lambda>e. 0 < t_x e) (enemies g)) \<le> length (enemies g)" by simp
  with miss show ?thesis by simp
next
  case (hit pre e post)
  have "100 * int (length (filter (\<lambda>e. 0 < t_x e) pre)) +
        100 * int (length (filter (\<lambda>e. 0 < t_x e) post))
        \<le> 100 * int (length pre) + 100 * int (length post)"
    by (intro add_mono mult_left_mono) simp_all
  with hit show ?thesis by simp
next
  case wound
  then show ?thesis by simp
qed

lemma bullet_step_potential_eq:
  assumes "\<forall>e\<in>set (enemies g). 0 < t_x e"
  shows "score (snd (bullet_step W H b g)) + 100 * int (length (enemies (snd (bullet_step W H b g))))
     = score g + 100 * int (length (enemies g))"
proof (cases rule: bullet_step_cases [of W H b g])
  case idle
  then show ?thesis by simp
next
  case miss
  with assms show ?thesis by simp
next
  case (hit pre e post)
  with assms have "filter (\<lambda>e. 0 < t_x e) pre = pre" "filter (\<lambda>e. 0 < t_x e) post = post"
    by simp_all
  with hit show ?thesis by simp
next
  case wound
  then show ?thesis by simp
qed

text \<open>A player bullet that hits removes exactly the first enemy it strikes.\<close>

lemma bullet_step_removes_one:
  assumes "\<forall>e\<in>set (enemies g). 0 < t_x e"
  shows "length (enemies g) \<le> length (enemies (snd (bullet_step W H b g))) + 1"
  using bullet_step_potential_eq [OF assms, of W H b] bullet_step_score [of W H b g]
  by (simp split: if_splits)

subsection \<open>The whole bullet list\<close>

lemma bullet_scan_Cons:
  "bullet_scan W H (b # bs) g =
     (fst (bullet_step W H b g) # fst (bullet_scan W H bs (snd (bullet_step W H b g))),
      snd (bullet_scan W H bs (snd (bullet_step W H b g))))"
  by (simp add: Let_def split: prod.splits)

lemma bullet_scan_subset: "set (enemies (snd (bullet_scan W H bs g))) \<subseteq> set (enemies g)"
proof (induction bs arbitrary: g)
  case Nil
  then show ?case by simp
next
  case (Cons b bs)
  from Cons.IH [of "snd (bullet_step W H b g)"] bullet_step_subset [of W H b g]
  show ?case unfolding bullet_scan_Cons by auto
qed

lemma bullet_scan_potential_le:
  "score (snd (bullet_scan W H bs g)) + 100 * int (length (enemies (snd (bullet_scan W H bs g))))
     \<le> score g + 100 * int (length (enemies g))"
proof (induction bs arbitrary: g)
  case Nil
  then show ?case by simp
next
  case (Cons b bs)
  from Cons.IH [of "snd (bullet_step W H b g)"] bullet_step_potential_le [of W H b g]
  show ?case unfolding bullet_scan_Cons by simp
qed

lemma bullet_scan_potential_eq:
  "\<forall>e\<in>set (enemies g). 0 < t_x e \<Longrightarrow>
   score (snd (bullet_scan W H bs g)) + 100 * int (length (enemies (snd (bullet_scan W H bs g))))
     = score g + 100 * int (length (enemies g))"
proof (induction bs arbitrary: g)
  case Nil
  then show ?case by simp
next
  case (Cons b bs)
  from Cons.IH [OF bullet_step_positive [OF Cons.prems], of W H b]
    bullet_step_potential_eq [OF Cons.prems, of W H b]
  show ?case unfolding bullet_scan_Cons by simp
qed

lemma bullet_scan_score_mono: "score g \<le> score (snd (bullet_scan W H bs g))"
proof (induction bs arbitrary: g)
  case Nil
  then show ?case by simp
next
  case (Cons b bs)
  from Cons.IH [of "snd (bullet_step W H b g)"] bullet_step_score [of W H b g]
  show ?case unfolding bullet_scan_Cons by (simp split: if_splits)
qed

lemma bullet_scan_lives:
  "lives (snd (bullet_scan W H bs g)) \<le> lives g \<and>
   lives g - int (enemy_shots bs) \<le> lives (snd (bullet_scan W H bs g))"
proof (induction bs arbitrary: g)
  case Nil
  then show ?case by (simp add: enemy_shots_def)
next
  case (Cons b bs)
  from Cons.IH [of "snd (bullet_step W H b g)"] bullet_step_lives [of W H b g]
  show ?case unfolding bullet_scan_Cons by (simp add: enemy_shots_def split: if_splits)
qed

lemma bullet_scan_running:
  "(running (snd (bullet_scan W H bs g)) \<longrightarrow> running g) \<and>
   (lives (snd (bullet_scan W H bs g)) < lives g \<and> lives (snd (bullet_scan W H bs g)) \<le> 0 \<longrightarrow>
      \<not> running (snd (bullet_scan W H bs g)))"
proof (induction bs arbitrary: g)
  case Nil
  then show ?case by simp
next
  case (Cons b bs)
  let ?g1 = "snd (bullet_step W H b g)"
  from Cons.IH [of ?g1] bullet_step_lives [of W H b g] bullet_step_running [of W H b g]
    bullet_scan_lives [of W H bs ?g1]
  show ?case unfolding bullet_scan_Cons by (auto split: if_splits)
qed

lemma bullet_scan_bullets_field: "bullets (snd (bullet_scan W H bs g)) = bullets g"
proof (induction bs arbitrary: g)
  case Nil
  then show ?case by simp
next
  case (Cons b bs)
  from Cons.IH [of "snd (bullet_step W H b g)"] bullet_step_bullets [of W H b g]
  show ?case unfolding bullet_scan_Cons by simp
qed

lemma bullet_scan_pointwise:
  "list_all2 (\<lambda>b b'. b' = b \<or> (b_active b \<and> b' = b\<lparr> b_active := False \<rparr>))
     bs (fst (bullet_scan W H bs g))"
proof (induction bs arbitrary: g)
  case Nil
  then show ?case by simp
next
  case (Cons b bs)
  from Cons.IH [of "snd (bullet_step W H b g)"] bullet_step_bullet [of W H b g]
  show ?case unfolding bullet_scan_Cons by simp
qed


subsection \<open>Movement and the whole pass\<close>

lemma handleCollisions_fields:
  "lives (handleCollisions W H g) = lives (snd (bullet_scan W H (bullets g) (tank_phase W H g)))"
  "score (handleCollisions W H g) = score (snd (bullet_scan W H (bullets g) (tank_phase W H g)))"
  "enemies (handleCollisions W H g) = enemies (snd (bullet_scan W H (bullets g) (tank_phase W H g)))"
  "running (handleCollisions W H g) = running (snd (bullet_scan W H (bullets g) (tank_phase W H g)))"
  "bullets (handleCollisions W H g) = fst (bullet_scan W H (bullets g) (tank_phase W H g))"
  by (simp_all add: handleCollisions_def bullet_phase_def syncHUD_def tank_phase_bullets
      split: prod.splits)

lemma Tank_update_position:
  "\<exists>px py. t_x (fst (Tank_update W H dt ks t r)) = clamp px (t_size t / 2) (W - t_size t / 2) \<and>
           t_y (fst (Tank_update W H dt ks t r)) = clamp py (t_size t / 2) (H - t_size t / 2) \<and>
           t_size (fst (Tank_update W H dt ks t r)) = t_size t"
proof -
  obtain t1 r1 where
    s: "(if t_isPlayer t then (handlePlayerInput ks t, r) else handleAI dt t r) = (t1, r1)"
    by (cases "if t_isPlayer t then (handlePlayerInput ks t, r) else handleAI dt t r")
  have sz: "t_size t1 = t_size t"
    using s by (auto simp: handlePlayerInput_def handleAI_def Let_def Math_random_def
        split: if_splits prod.splits)
  have "t_x (fst (Tank_update W H dt ks t r)) = clamp (t_x t1) (t_size t / 2) (W - t_size t / 2)"
    and "t_y (fst (Tank_update W H dt ks t r)) = clamp (t_y t1) (t_size t / 2) (H - t_size t / 2)"
    and "t_size (fst (Tank_update W H dt ks t r)) = t_size t"
    using s sz by (simp_all add: Tank_update_def Let_def)
  then show ?thesis by blast
qed

lemma clamp_bounds: "lo \<le> hi \<Longrightarrow> lo \<le> clamp v lo hi \<and> clamp v lo hi \<le> hi"
  by (auto simp: clamp_def)

lemma tryShoot_tank:
  "t_x (fst (tryShoot t bs own)) = t_x t" "t_y (fst (tryShoot t bs own)) = t_y t"
  "t_size (fst (tryShoot t bs own)) = t_size t"
  by (simp_all add: tryShoot_def Let_def)

lemma tryShoot_bullets:
  "snd (tryShoot t bs own) = bs \<or> (\<exists>px py d. snd (tryShoot t bs own) = bs @ [Bullet px py d own])"
  by (auto simp: tryShoot_def Let_def)

lemma update_enemies_Cons:
  "update_enemies W H dt (e # es) g =
     (let e1 = fst (Tank_update W H dt (keys g) e (rng g));
          r1 = snd (Tank_update W H dt (keys g) e (rng g));
          fire = (fst (Math_random r1) < 0.01);
          e2 = (if fire then fst (tryShoot e1 (bullets g) ''enemy'') else e1);
          bs = (if fire then snd (tryShoot e1 (bullets g) ''enemy'') else bullets g);
          g1 = g\<lparr> bullets := bs, rng := snd (Math_random r1) \<rparr>
      in (e2 # fst (update_enemies W H dt es g1), snd (update_enemies W H dt es g1)))"
  by (simp add: Let_def split: prod.splits)

lemma update_enemies_frame:
  "keys (snd (update_enemies W H dt es g)) = keys g \<and>
   player (snd (update_enemies W H dt es g)) = player g \<and>
   enemies (snd (update_enemies W H dt es g)) = enemies g \<and>
   particles (snd (update_enemies W H dt es g)) = particles g \<and>
   score (snd (update_enemies W H dt es g)) = score g \<and>
   lives (snd (update_enemies W H dt es g)) = lives g \<and>
   running (snd (update_enemies W H dt es g)) = running g \<and>
   lastTime (snd (update_enemies W H dt es g)) = lastTime g \<and>
   length (fst (update_enemies W H dt es g)) = length es"
proof (induction es arbitrary: g)
  case Nil
  then show ?case by simp
next
  case (Cons e es)
  show ?case unfolding update_enemies_Cons Let_def using Cons.IH by simp
qed

lemma update_enemies_bullets:
  "\<exists>fired. bullets (snd (update_enemies W H dt es g)) = bullets g @ fired \<and>
           (\<forall>b\<in>set fired. b_active b \<and> b_owner b = ''enemy'')"
proof (induction es arbitrary: g)
  case Nil
  then show ?case by simp
next
  case (Cons e es)
  let ?e1 = "fst (Tank_update W H dt (keys g) e (rng g))"
  let ?r1 = "snd (Tank_update W H dt (keys g) e (rng g))"
  let ?bs = "if fst (Math_random ?r1) < 0.01 then snd (tryShoot ?e1 (bullets g) ''enemy'')
             else bullets g"
  let ?g1 = "g\<lparr> bullets := ?bs, rng := snd (Math_random ?r1) \<rparr>"
  from Cons.IH [of ?g1] obtain fired where
    f: "bullets (snd (update_enemies W H dt es ?g1)) = ?bs @ fired"
       "\<forall>b\<in>set fired. b_active b \<and> b_owner b = ''enemy''"
    by auto
  from tryShoot_bullets [of ?e1 "bullets g" "''enemy''"]
  obtain first where
    "?bs = bullets g @ first" "\<forall>b\<in>set first. b_active b \<and> b_owner b = ''enemy''"
    by (cases "fst (Math_random ?r1) < 0.01") (auto simp: Bullet_def)
  with f have "bullets (snd (update_enemies W H dt es ?g1)) = bullets g @ (first @ fired) \<and>
    (\<forall>b\<in>set (first @ fired). b_active b \<and> b_owner b = ''enemy'')"
    by auto
  then show ?case unfolding update_enemies_Cons Let_def by (simp only: snd_conv) blast
qed

lemma update_enemies_positive:
  assumes "\<forall>e\<in>set es. 0 < t_size e \<and> t_size e \<le> W"
  shows "\<forall>e\<in>set (fst (update_enemies W H dt es g)). 0 < t_x e \<and> 0 < t_size e \<and> t_size e \<le> W"
  using assms
proof (induction es arbitrary: g)
  case Nil
  then show ?case by simp
next
  case (Cons e es)
  let ?e1 = "fst (Tank_update W H dt (keys g) e (rng g))"
  let ?r1 = "snd (Tank_update W H dt (keys g) e (rng g))"
  let ?fire = "fst (Math_random ?r1) < 0.01"
  let ?e2 = "if ?fire then fst (tryShoot ?e1 (bullets g) ''enemy'') else ?e1"
  let ?g1 = "g\<lparr> bullets := (if ?fire then snd (tryShoot ?e1 (bullets g) ''enemy'') else bullets g),
                 rng := snd (Math_random ?r1) \<rparr>"
  from Tank_update_position [of W H dt "keys g" e "rng g"] obtain px where
    x: "t_x ?e1 = clamp px (t_size e / 2) (W - t_size e / 2)" and sz: "t_size ?e1 = t_size e"
    by blast
  from Cons.prems have e: "0 < t_size e" "t_size e \<le> W" by simp_all
  then have "t_size e / 2 \<le> W - t_size e / 2" by simp
  from clamp_bounds [OF this, of px] x e have "0 < t_x ?e1" by simp
  with sz e have head: "0 < t_x ?e2 \<and> 0 < t_size ?e2 \<and> t_size ?e2 \<le> W"
    by (simp add: tryShoot_tank)
  from Cons.prems have "\<forall>e\<in>set es. 0 < t_size e \<and> t_size e \<le> W" by simp
  from Cons.IH [OF this, of ?g1]
  have tail: "\<forall>e\<in>set (fst (update_enemies W H dt es ?g1)).
                0 < t_x e \<and> 0 < t_size e \<and> t_size e \<le> W" .
  have "fst (update_enemies W H dt (e # es) g) = ?e2 # fst (update_enemies W H dt es ?g1)"
    unfolding update_enemies_Cons Let_def by (simp only: fst_conv)
  with head tail show ?case by (simp only: set_simps ball_simps) 
qed

lemma move_all_fields:
  "score (move_all W H dt g) = score g"
  "lives (move_all W H dt g) = lives g"
  "running (move_all W H dt g) = running g"
  "length (enemies (move_all W H dt g)) = length (enemies g)"
  "keys (move_all W H dt g) = keys g"
  using update_enemies_frame
    [of W H dt "enemies g" "g\<lparr> player := fst (Tank_update W H dt (keys g) (player g) (rng g)),
                                 rng := snd (Tank_update W H dt (keys g) (player g) (rng g)) \<rparr>"]
  by (simp_all add: move_all_def Let_def case_prod_beta)

lemma move_all_positive:
  assumes "\<forall>e\<in>set (enemies g). 0 < t_size e \<and> t_size e \<le> W"
  shows "\<forall>e\<in>set (enemies (move_all W H dt g)). 0 < t_x e"
  using update_enemies_positive [OF assms, of H dt
      "g\<lparr> player := fst (Tank_update W H dt (keys g) (player g) (rng g)),
          rng := snd (Tank_update W H dt (keys g) (player g) (rng g)) \<rparr>"]
  by (simp add: move_all_def Let_def case_prod_beta)

lemma move_all_bullets:
  "\<exists>fired. bullets (move_all W H dt g) = map (Bullet_update W H) (bullets g @ fired) \<and>
           (\<forall>b\<in>set fired. b_active b \<and> b_owner b = ''enemy'')"
proof -
  let ?g1 = "g\<lparr> player := fst (Tank_update W H dt (keys g) (player g) (rng g)),
                 rng := snd (Tank_update W H dt (keys g) (player g) (rng g)) \<rparr>"
  from update_enemies_bullets [of W H dt "enemies g" ?g1] obtain fired where
    f: "bullets (snd (update_enemies W H dt (enemies g) ?g1)) = bullets g @ fired"
       "\<forall>b\<in>set fired. b_active b \<and> b_owner b = ''enemy''"
    by auto
  have "bullets (move_all W H dt g) =
          map (Bullet_update W H) (bullets (snd (update_enemies W H dt (enemies g) ?g1)))"
    by (simp add: move_all_def Let_def case_prod_beta)
  with f show ?thesis by auto
qed

lemma update_fields:
  "lives (update W H dt g) = lives (handleCollisions W H (move_all W H dt g))"
  "score (update W H dt g) = score (handleCollisions W H (move_all W H dt g))"
  "running (update W H dt g) = running (handleCollisions W H (move_all W H dt g))"
  by (simp_all add: update_def resolve_def Let_def)

lemma bullet_phase_fields:
  "lives (bullet_phase W H g) = lives (snd (bullet_scan W H (bullets g) g))"
  "score (bullet_phase W H g) = score (snd (bullet_scan W H (bullets g) g))"
  "enemies (bullet_phase W H g) = enemies (snd (bullet_scan W H (bullets g) g))"
  "running (bullet_phase W H g) = running (snd (bullet_scan W H (bullets g) g))"
  "bullets (bullet_phase W H g) = fst (bullet_scan W H (bullets g) g)"
  by (simp_all add: bullet_phase_def case_prod_beta)

lemma handleCollisions_lives:
  "lives (handleCollisions W H g) \<le> lives (tank_phase W H g) \<and>
   lives (tank_phase W H g) - int (enemy_shots (bullets g)) \<le> lives (handleCollisions W H g)"
  using bullet_scan_lives [of W H "bullets g" "tank_phase W H g"]
  by (simp add: handleCollisions_fields)

lemma handleCollisions_score_mono: "score g \<le> score (handleCollisions W H g)"
  using bullet_scan_score_mono [where g = "tank_phase W H g" and W = W and H = H and bs = "bullets g"]
    tank_phase_score [of W H g]
  by (simp add: handleCollisions_fields)

lemma handleCollisions_potential_le:
  "score (handleCollisions W H g) + 100 * int (length (enemies (handleCollisions W H g)))
     \<le> score g + 100 * int (length (enemies g))"
  using bullet_scan_potential_le [of W H "bullets g" "tank_phase W H g"]
    tank_phase_potential_le [of W H g]
  by (simp add: handleCollisions_fields)

lemma handleCollisions_potential_eq:
  assumes "\<forall>e\<in>set (enemies g). 0 < t_x e"
  shows "score (handleCollisions W H g) + 100 * int (length (enemies (handleCollisions W H g)))
     = score g + 100 * int (length (enemies g))"
  using bullet_scan_potential_eq [OF tank_phase_positive [OF assms], where bs = "bullets g"]
    tank_phase_potential_eq [OF assms]
  by (simp add: handleCollisions_fields)

lemma handleCollisions_length: "length (enemies (handleCollisions W H g)) \<le> length (enemies g)"
  using handleCollisions_potential_le [of W H g] handleCollisions_score_mono [where g = g and W = W and H = H]
  by linarith

lemma reset_fields:
  "lives (reset W H g) = PLAYER_MAX_LIVES" "score (reset W H g) = 0" "\<not> running (reset W H g)"
  "bullets (reset W H g) = []"
  by (simp_all add: reset_def syncHUD_def Let_def)

lemma loop_fields:
  "lives (loop W H ts g) = (if running g then lives (update W H (ts - lastTime g) (g\<lparr> lastTime := ts \<rparr>)) else lives g)"
  "score (loop W H ts g) = (if running g then score (update W H (ts - lastTime g) (g\<lparr> lastTime := ts \<rparr>)) else score g)"
  "running (loop W H ts g) = (if running g then running (update W H (ts - lastTime g) (g\<lparr> lastTime := ts \<rparr>)) else False)"
  by (simp_all add: loop_def draw_def updateParticles_def Let_def)

lemma update_lives_le: "lives (update W H dt g) \<le> lives g"
  using handleCollisions_lives [of W H "move_all W H dt g"] tank_phase_lives [of W H "move_all W H dt g"]
  by (simp add: update_fields move_all_fields split: if_splits)

lemma update_score_ge: "score g \<le> score (update W H dt g)"
  using handleCollisions_score_mono [where g = "move_all W H dt g" and W = W and H = H]
  by (simp add: update_fields move_all_fields)

lemma keydown_fields:
  "lives (keydown W H code g) = (if code = ''KeyR'' then PLAYER_MAX_LIVES else lives g)"
  "score (keydown W H code g) = (if code = ''KeyR'' then 0 else score g)"
  "running (keydown W H code g) = (if code = ''KeyR'' then False else running g)"
  by (simp_all add: keydown_def reset_fields Let_def case_prod_beta)

lemma step_lives: "lives (step W H ev g) \<le> lives g \<or> lives (step W H ev g) = PLAYER_MAX_LIVES"
proof (cases ev)
  case (Frame ts)
  then show ?thesis
    using update_lives_le [of W H "ts - lastTime g" "g\<lparr> lastTime := ts \<rparr>"]
    by (simp add: loop_fields)
qed (simp_all add: keydown_fields reset_fields start_def togglePause_def Let_def)

lemma step_score:
  "score g \<le> score (step W H ev g) \<or>
   (score (step W H ev g) = 0 \<and> (ev = ResetClick \<or> ev = KeyDown ''KeyR''))"
proof (cases ev)
  case (Frame ts)
  then show ?thesis
    using update_score_ge [where g = "g\<lparr> lastTime := ts \<rparr>" and W = W and H = H and dt = "ts - lastTime g"]
    by (simp add: loop_fields)
qed (simp_all add: keydown_fields reset_fields start_def togglePause_def Let_def)

lemma Game_lives: "lives (Game W H r) = PLAYER_MAX_LIVES"
  by (simp add: Game_def syncHUD_def Let_def)


subsection \<open>Arithmetic\<close>

lemma Math_hypot_less_iff: "Math_hypot a b < r \<longleftrightarrow> 0 < r \<and> a * a + b * b < r * r"
proof (cases "0 < r")
  case True
  then have "sqrt (a\<^sup>2 + b\<^sup>2) < r \<longleftrightarrow> a\<^sup>2 + b\<^sup>2 < r\<^sup>2"
    by (metis real_sqrt_less_iff real_sqrt_abs abs_of_pos)
  with True show ?thesis by (simp add: Math_hypot_def power2_eq_square)
next
  case False
  have "0 \<le> sqrt (a\<^sup>2 + b\<^sup>2)" by simp
  with False show ?thesis unfolding Math_hypot_def by linarith
qed

lemmas eval_defs =
  Tank_def enemy_at_def base_game_def half_def Tank_update_def handlePlayerInput_def
  key_dx_def key_dy_def pressed_def handleAI_def Math_random_def clamp_def
  tank_phase_def touches_def strikes_def hits_player_def Math_hypot_less_iff Let_def
  bullet_phase_def syncHUD_def ENEMY_SPEED_def PLAYER_SPEED_def BULLET_SPEED_def
  gameOver_def respawn_or_end_def bullet_step_def Bullet_update_def Bullet_move_def
  out_of_bounds_def Bullet_def tryShoot_def PLAYER_MAX_LIVES_def

subsection \<open>Game over, frames and events\<close>

lemma particle_loop_rng:
  "rng (particle_loop n a b c g) = (\<lambda>k. rng g (k + 3 * n))"
  by (induction n arbitrary: g) (simp_all add: Math_random_def numeral_3_eq_3)

lemma addParticles_rng: "rng (addParticles a b c g) = (\<lambda>k. rng g (k + 30))"
  by (simp add: addParticles_def particle_loop_rng)

lemma handleCollisions_game_over:
  assumes "lives (handleCollisions W H g) < lives g" and "lives (handleCollisions W H g) \<le> 0"
  shows "\<not> running (handleCollisions W H g)"
proof -
  let ?g1 = "tank_phase W H g"
  let ?g2 = "snd (bullet_scan W H (bullets g) ?g1)"
  note r = bullet_scan_running [of W H "bullets g" ?g1]
  note l = bullet_scan_lives [of W H "bullets g" ?g1]
  from assms have a: "lives ?g2 < lives g" "lives ?g2 \<le> 0"
    by (simp_all add: handleCollisions_fields)
  show ?thesis
  proof (cases "lives ?g2 < lives ?g1")
    case True
    with a r show ?thesis by (simp add: handleCollisions_fields)
  next
    case False
    with l have e: "lives ?g2 = lives ?g1" by simp
    with a have "lives ?g1 < lives g" "lives ?g1 \<le> 0" by simp_all
    then have "\<not> running ?g1"
      by (simp add: tank_phase_lives tank_phase_running split: if_splits)
    with r show ?thesis by (simp add: handleCollisions_fields)
  qed
qed

lemma update_game_over:
  assumes "lives (update W H dt g) < lives g" and "lives (update W H dt g) \<le> 0"
  shows "\<not> running (update W H dt g)"
  using assms handleCollisions_game_over [of W H "move_all W H dt g"]
  by (simp add: update_fields move_all_fields)

lemma loop_idle: "\<not> running g \<Longrightarrow> loop W H ts g = draw (g\<lparr> lastTime := ts \<rparr>)"
  by (simp add: loop_def Let_def)

lemma draw_fields:
  "player (draw g) = player g" "enemies (draw g) = enemies g" "bullets (draw g) = bullets g"
  "score (draw g) = score g" "lives (draw g) = lives g" "running (draw g) = running g"
  by (simp_all add: draw_def updateParticles_def Let_def)

lemma step_stays_stopped:
  assumes "\<not> running g" and "ev \<notin> {StartClick, CanvasClick, StartTimer, PauseClick}"
  shows "\<not> running (step W H ev g)"
  using assms by (cases ev) (simp_all add: keydown_fields reset_fields loop_fields)

lemma Math_hypot_axis: "Math_hypot 0 b = \<bar>b\<bar>" "Math_hypot a 0 = \<bar>a\<bar>"
  by (simp_all add: Math_hypot_def)

lemma dying_fields:
  "lastTime dying = 0" "running dying" "lives dying = 1"
  by (simp_all add: dying_def base_game_def)

lemma dying_move:
  "player (move_all 800 600 16 (dying\<lparr> lastTime := 16 \<rparr>)) =
     (Tank 400 520 ''#5ec8ff'' True)\<lparr> t_y := 517.4, t_angle := - (pi / 2) \<rparr>"
  "bullets (move_all 800 600 16 (dying\<lparr> lastTime := 16 \<rparr>)) = [Bullet 400 520 0 ''enemy'']"
  "enemies (move_all 800 600 16 (dying\<lparr> lastTime := 16 \<rparr>)) =
     [(enemy_at 100 100)\<lparr> t_targetDirTimer := 84, t_x := 101.44 \<rparr>]"
  "rng (move_all 800 600 16 (dying\<lparr> lastTime := 16 \<rparr>)) = half"
  "keys (move_all 800 600 16 (dying\<lparr> lastTime := 16 \<rparr>)) = {''ArrowUp''}"
  "lives (move_all 800 600 16 (dying\<lparr> lastTime := 16 \<rparr>)) = 1"
  "running (move_all 800 600 16 (dying\<lparr> lastTime := 16 \<rparr>))"
  "lastTime (move_all 800 600 16 (dying\<lparr> lastTime := 16 \<rparr>)) = 16"
  by (simp_all add: dying_def shot_def move_all_def eval_defs Math_hypot_axis Math_atan2_def)

lemma dying_update:
  "player (update 800 600 16 (dying\<lparr> lastTime := 16 \<rparr>)) =
     (Tank 400 520 ''#5ec8ff'' True)\<lparr> t_y := 517.4, t_angle := - (pi / 2) \<rparr>"
  "bullets (update 800 600 16 (dying\<lparr> lastTime := 16 \<rparr>)) = []"
  "enemies (update 800 600 16 (dying\<lparr> lastTime := 16 \<rparr>)) =
     [(enemy_at 100 100)\<lparr> t_targetDirTimer := 84, t_x := 101.44 \<rparr>]"
  "rng (update 800 600 16 (dying\<lparr> lastTime := 16 \<rparr>)) = half"
  "keys (update 800 600 16 (dying\<lparr> lastTime := 16 \<rparr>)) = {''ArrowUp''}"
  "lives (update 800 600 16 (dying\<lparr> lastTime := 16 \<rparr>)) = 0"
  "running (update 800 600 16 (dying\<lparr> lastTime := 16 \<rparr>)) = False"
  "lastTime (update 800 600 16 (dying\<lparr> lastTime := 16 \<rparr>)) = 16"
  by (simp_all add: update_def resolve_def handleCollisions_def dying_move addParticles_rng
      Tank_def enemy_at_def half_def tank_phase_def touches_def strikes_def hits_player_def
      Math_hypot_less_iff Let_def bullet_phase_def syncHUD_def gameOver_def respawn_or_end_def
      bullet_step_def Bullet_def)

lemma dying_loop:
  "player (loop 800 600 16 dying) =
     (Tank 400 520 ''#5ec8ff'' True)\<lparr> t_y := 517.4, t_angle := - (pi / 2) \<rparr>"
  "bullets (loop 800 600 16 dying) = []"
  "enemies (loop 800 600 16 dying) =
     [(enemy_at 100 100)\<lparr> t_targetDirTimer := 84, t_x := 101.44 \<rparr>]"
  "rng (loop 800 600 16 dying) = half"
  "keys (loop 800 600 16 dying) = {''ArrowUp''}"
  "lives (loop 800 600 16 dying) = 0"
  "running (loop 800 600 16 dying) = False"
  "lastTime (loop 800 600 16 dying) = 16"
  by (simp_all add: loop_def Let_def draw_def updateParticles_def dying_fields dying_update)

lemma resumed_move:
  "player (move_all 800 600 16 ((start (loop 800 600 16 dying))\<lparr> lastTime := 32 \<rparr>)) =
     (Tank 400 520 ''#5ec8ff'' True)\<lparr> t_y := 514.8, t_angle := - (pi / 2) \<rparr>"
  "bullets (move_all 800 600 16 ((start (loop 800 600 16 dying))\<lparr> lastTime := 32 \<rparr>)) = []"
  "enemies (move_all 800 600 16 ((start (loop 800 600 16 dying))\<lparr> lastTime := 32 \<rparr>)) =
     [(enemy_at 100 100)\<lparr> t_targetDirTimer := 68, t_x := 102.88 \<rparr>]"
  by (simp_all add: move_all_def start_def dying_loop eval_defs Math_hypot_axis Math_atan2_def)

lemma resumed_update:
  "t_y (player (update 800 600 16 ((start (loop 800 600 16 dying))\<lparr> lastTime := 32 \<rparr>))) = 514.8"
  by (simp add: update_def resolve_def handleCollisions_def resumed_move
      Tank_def enemy_at_def tank_phase_def touches_def Math_hypot_less_iff Let_def
      bullet_phase_def syncHUD_def)

lemma handleCollisions_pointwise:
  "list_all2 (\<lambda>b b'. b' = b \<or> (b_active b \<and> b' = b\<lparr> b_active := False \<rparr>))
     (bullets g) (bullets (handleCollisions W H g))"
  using bullet_scan_pointwise [of "bullets g" W H "tank_phase W H g"]
  by (simp add: handleCollisions_fields)

lemma step_bullets:
  assumes "\<forall>ts. ev \<noteq> Frame ts"
  shows "bullets (step W H ev g) = bullets g \<or> bullets (step W H ev g) = [] \<or>
         (\<exists>px py d. bullets (step W H ev g) = bullets g @ [Bullet px py d ''player''])"
proof (cases ev)
  case (KeyDown code)
  from tryShoot_bullets [of "player g" "bullets g" "''player''"] KeyDown show ?thesis
    by (auto simp add: keydown_def reset_fields Let_def case_prod_beta)
qed (use assms in \<open>simp_all add: reset_fields start_def togglePause_def Let_def\<close>)

subsection \<open>The player's step and the fate of a bullet\<close>





lemma bullet_scan_length: "length (fst (bullet_scan W H bs g)) = length bs"
  by (induction bs arbitrary: g) (simp_all add: bullet_scan_Cons del: bullet_scan.simps(2))

lemma bullet_scan_nth:
  "i < length bs \<Longrightarrow>
     fst (bullet_scan W H bs g) ! i =
       fst (bullet_step W H (bs ! i) (snd (bullet_scan W H (take i bs) g)))"
proof (induction bs arbitrary: i g)
  case Nil
  then show ?case by simp
next
  case (Cons b bs)
  show ?case
  proof (cases i)
    case 0
    then show ?thesis unfolding bullet_scan_Cons by simp
  next
    case (Suc j)
    with Cons.prems have "j < length bs" by simp
    from Cons.IH [OF this, of "snd (bullet_step W H b g)"] Suc show ?thesis
      unfolding bullet_scan_Cons by (simp add: bullet_scan_Cons del: bullet_scan.simps(2))
  qed
qed

lemma handleCollisions_nth_active:
  assumes "i < length (bullets g)"
  shows "b_active (bullets (handleCollisions W H g) ! i) =
     (b_active (bullets g ! i) \<and>
      \<not> (b_owner (bullets g ! i) = ''player'' \<and>
         (\<exists>e\<in>set (enemies (snd (bullet_scan W H (take i (bullets g)) (tank_phase W H g)))).
            strikes (bullets g ! i) e)) \<and>
      \<not> (b_owner (bullets g ! i) = ''enemy'' \<and>
         hits_player (bullets g ! i)
           (player (snd (bullet_scan W H (take i (bullets g)) (tank_phase W H g))))))"
  using bullet_scan_nth [OF assms, of W H "tank_phase W H g"]
  by (simp add: handleCollisions_fields bullet_step_active)

lemma faded_subseq:
  "list_all2 (\<lambda>b b'. b' = b \<or> (b_active b \<and> b' = b\<lparr> b_active := False \<rparr>)) ms hs \<Longrightarrow>
     subseq (filter b_active hs) (filter b_active ms)"
  by (induction rule: list_all2_induct) auto

lemma Bullet_update_active:
  "b_active (Bullet_update W H b) = (b_active b \<and> \<not> out_of_bounds W H (Bullet_move b))"
  by (simp add: Bullet_update_def Bullet_move_def out_of_bounds_def Let_def)

lemma filter_active_updated:
  "filter b_active (map (Bullet_update W H) bs) =
     map (Bullet_update W H) (filter (\<lambda>b. b_active b \<and> \<not> out_of_bounds W H (Bullet_move b)) bs)"
  by (induction bs) (simp_all add: Bullet_update_active)

lemma update_bullets_eq:
  "bullets (update W H dt g) = filter b_active (bullets (handleCollisions W H (move_all W H dt g)))"
  by (simp add: update_def resolve_def Let_def)

lemma update_bullets_subseq:
  "\<exists>fired. (\<forall>b\<in>set fired. b_active b \<and> b_owner b = ''enemy'') \<and>
     bullets (move_all W H dt g) = map (Bullet_update W H) (bullets g @ fired) \<and>
     subseq (bullets (update W H dt g))
       (map (Bullet_update W H)
          (filter (\<lambda>b. b_active b \<and> \<not> out_of_bounds W H (Bullet_move b)) (bullets g @ fired)))"
proof -
  from move_all_bullets [of W H dt g] obtain fired where
    f: "bullets (move_all W H dt g) = map (Bullet_update W H) (bullets g @ fired)"
       "\<forall>b\<in>set fired. b_active b \<and> b_owner b = ''enemy''"
    by blast
  from faded_subseq [OF handleCollisions_pointwise [of "move_all W H dt g" W H]]
  have "subseq (bullets (update W H dt g)) (filter b_active (bullets (move_all W H dt g)))"
    by (simp add: update_bullets_eq)
  with f show ?thesis by (auto simp: filter_active_updated)
qed

lemma loop_bullets:
  "bullets (loop W H ts g) =
     (if running g then bullets (update W H (ts - lastTime g) (g\<lparr> lastTime := ts \<rparr>))
      else bullets g)"
  by (simp add: loop_def draw_def updateParticles_def Let_def)

lemma two_shots_move:
  "player (move_all 800 600 16 two_shots) = Tank 400 520 ''#5ec8ff'' True"
  "bullets (move_all 800 600 16 two_shots) = [Bullet 400 520 0 ''enemy'', Bullet 400 520 0 ''enemy'']"
  "enemies (move_all 800 600 16 two_shots) =
     [(enemy_at 100 100)\<lparr> t_targetDirTimer := 84, t_x := 101.44 \<rparr>]"
  "lives (move_all 800 600 16 two_shots) = 3"
  by (simp_all add: move_all_def two_shots_def shot_def eval_defs)

lemma two_shots_collide:
  "bullets (handleCollisions 800 600 (move_all 800 600 16 two_shots)) =
     [(Bullet 400 520 0 ''enemy'')\<lparr> b_active := False \<rparr>,
      (Bullet 400 520 0 ''enemy'')\<lparr> b_active := False \<rparr>]"
  by (simp add: handleCollisions_fields two_shots_move tank_phase_def Tank_def enemy_at_def
      touches_def hits_player_def Math_hypot_less_iff Let_def gameOver_def respawn_or_end_def
      bullet_step_def Bullet_def ENEMY_SPEED_def PLAYER_SPEED_def BULLET_SPEED_def)

section \<open>The claims\<close>

text \<open>
  C4. A tank that is not larger than the playfield lies, after \<open>Tank.update\<close>, within
  \<open>[size/2, WIDTH - size/2]\<close> horizontally and \<open>[size/2, HEIGHT - size/2]\<close> vertically,
  whatever the elapsed time, the held keys and the random numbers are, and whether it is
  the player or an enemy.
\<close>

theorem Tank_update_within_playfield:
  assumes "t_size t \<le> WIDTH" and "t_size t \<le> HEIGHT"
  shows "t_size t / 2 \<le> t_x (fst (Tank_update WIDTH HEIGHT dt ks t r)) \<and>
         t_x (fst (Tank_update WIDTH HEIGHT dt ks t r)) \<le> WIDTH - t_size t / 2 \<and>
         t_size t / 2 \<le> t_y (fst (Tank_update WIDTH HEIGHT dt ks t r)) \<and>
         t_y (fst (Tank_update WIDTH HEIGHT dt ks t r)) \<le> HEIGHT - t_size t / 2"
proof -
  obtain t1 r1 where
    s: "(if t_isPlayer t then (handlePlayerInput ks t, r) else handleAI dt t r) = (t1, r1)"
    by (cases "if t_isPlayer t then (handlePlayerInput ks t, r) else handleAI dt t r")
  have sz: "t_size t1 = t_size t"
    using s by (auto simp: handlePlayerInput_def handleAI_def Let_def Math_random_def
        split: if_splits prod.splits)
  have x: "t_x (fst (Tank_update WIDTH HEIGHT dt ks t r)) =
             clamp (t_x t1) (t_size t / 2) (WIDTH - t_size t / 2)"
    and y: "t_y (fst (Tank_update WIDTH HEIGHT dt ks t r)) =
             clamp (t_y t1) (t_size t / 2) (HEIGHT - t_size t / 2)"
    using s sz by (simp_all add: Tank_update_def Let_def)
  from assms show ?thesis unfolding x y clamp_def by auto
qed

text \<open>
  The player in the top left corner, pushing further up and left, and an enemy beyond the
  bottom right corner: both end up on the border of the permitted rectangle.
\<close>

theorem Tank_update_within_playfield_witness:
  "t_size (Tank 18 18 ''#5ec8ff'' True) \<le> 800 \<and> t_size (Tank 18 18 ''#5ec8ff'' True) \<le> 600 \<and>
   18 \<le> t_x (fst (Tank_update 800 600 16 {''ArrowUp'', ''ArrowLeft''}
                     (Tank 18 18 ''#5ec8ff'' True) half)) \<and>
   t_x (fst (Tank_update 800 600 16 {''ArrowUp'', ''ArrowLeft''}
                     (Tank 18 18 ''#5ec8ff'' True) half)) \<le> 782 \<and>
   18 \<le> t_y (fst (Tank_update 800 600 16 {''ArrowUp'', ''ArrowLeft''}
                     (Tank 18 18 ''#5ec8ff'' True) half)) \<and>
   t_y (fst (Tank_update 800 600 16 {''ArrowUp'', ''ArrowLeft''}
                     (Tank 18 18 ''#5ec8ff'' True) half)) \<le> 582"
  using Tank_update_within_playfield
    [of "Tank 18 18 ''#5ec8ff'' True" 800 600 16 "{''ArrowUp'', ''ArrowLeft''}" half]
  by (simp add: Tank_def)

text \<open>
  C6. After every \<open>update\<close> the roster is non-empty: if collision resolution left no
  enemy, the roster holds exactly \<open>ENEMY_COUNT = 5\<close> enemies when \<open>update\<close> returns, and
  otherwise it is the roster that collision resolution left.
\<close>

theorem update_refills_roster:
  "enemies (update WIDTH HEIGHT dt g) \<noteq> [] \<and>
   (enemies (resolve WIDTH HEIGHT dt g) = [] \<longrightarrow>
      length (enemies (update WIDTH HEIGHT dt g)) = 5 \<and> ENEMY_COUNT = 5) \<and>
   (enemies (resolve WIDTH HEIGHT dt g) \<noteq> [] \<longrightarrow>
      update WIDTH HEIGHT dt g = resolve WIDTH HEIGHT dt g)"
proof -
  have five: "length (enemies (spawnEnemies WIDTH HEIGHT (resolve WIDTH HEIGHT dt g))) = 5"
    by (rule spawnEnemies_length)
  then have "enemies (spawnEnemies WIDTH HEIGHT (resolve WIDTH HEIGHT dt g)) \<noteq> []"
    by auto
  with five show ?thesis
    by (simp add: update_def Let_def ENEMY_COUNT_def)
qed

text \<open>The player rams the last enemy: the roster is emptied and refilled in the same call.\<close>

theorem update_refills_roster_witness:
  "enemies (resolve 800 600 16 ram_game) = [] \<and>
   length (enemies (update 800 600 16 ram_game)) = 5"
proof -
  have "enemies (resolve 800 600 16 ram_game) = []"
    by (simp add: resolve_def move_all_def handleCollisions_def ram_game_def eval_defs
        split: prod.splits)
  with update_refills_roster [of 800 600 16 ram_game] show ?thesis by simp
qed




text \<open>
  C2. The claim that lives never becomes negative fails: with one life left and two enemy
  bullets that both reach the player in the same frame, \<open>update\<close> leaves lives at -1.
\<close>

theorem lives_below_zero:
  "lives last_life = 1 \<and> lives (update 800 600 16 last_life) = - 1"
proof -
  have "lives (update 800 600 16 last_life) = - 1"
    unfolding update_fields handleCollisions_fields
    by (simp add: move_all_def last_life_def two_shots_def shot_def eval_defs)
  then show ?thesis by (simp add: last_life_def)
qed

text \<open>
  C2, as the code has it. Lives is 3 after construction and after \<open>reset\<close>; no event
  raises it except by setting it to 3; \<open>gameOver\<close> leaves it as it is. One collision pass
  lowers it by at most 1 plus the number of active enemy bullets, so the result is
  non-negative whenever lives before the pass exceeds the number of active enemy bullets.
\<close>

theorem lives_bounds:
  "lives (Game WIDTH HEIGHT r) = 3 \<and> lives (reset WIDTH HEIGHT g) = 3 \<and>
   (lives (step WIDTH HEIGHT ev g) \<le> lives g \<or> lives (step WIDTH HEIGHT ev g) = 3) \<and>
   lives g - 1 - int (enemy_shots (bullets g)) \<le> lives (handleCollisions WIDTH HEIGHT g) \<and>
   (int (enemy_shots (bullets g)) < lives g \<longrightarrow> 0 \<le> lives (handleCollisions WIDTH HEIGHT g)) \<and>
   lives (gameOver g) = lives g"
proof -
  have "lives g - 1 - int (enemy_shots (bullets g)) \<le> lives (handleCollisions WIDTH HEIGHT g)"
    using handleCollisions_lives [of WIDTH HEIGHT g] tank_phase_lives [of WIDTH HEIGHT g]
    by (simp split: if_splits)
  moreover have "lives (step WIDTH HEIGHT ev g) \<le> lives g \<or> lives (step WIDTH HEIGHT ev g) = 3"
    using step_lives [of WIDTH HEIGHT ev g] by (simp add: PLAYER_MAX_LIVES_def)
  ultimately show ?thesis
    by (simp add: Game_lives reset_fields PLAYER_MAX_LIVES_def gameOver_def)
qed

text \<open>Three lives and two active enemy bullets: the pass cannot go below zero.\<close>

theorem lives_bounds_witness:
  "int (enemy_shots (bullets two_shots)) < lives two_shots \<and>
   0 \<le> lives (handleCollisions 800 600 two_shots)"
proof -
  have "int (enemy_shots (bullets two_shots)) < lives two_shots"
    by (simp add: two_shots_def shot_def enemy_shots_def eval_defs)
  with lives_bounds [of 800 600 half two_shots StartClick] show ?thesis by simp
qed

text \<open>
  C7. Every destroyed enemy is worth exactly 100. When no enemy lies at or left of
  \<open>x = 0\<close> (which \<open>Tank.update\<close> ensures before the only call, for tanks not larger
  than the playfield), the score gained in one \<open>handleCollisions\<close> pass is 100 times the
  number of enemies removed from the roster; the tank phase gains 100 for every enemy
  that touches the player and a player bullet gains 100 exactly when it strikes an
  enemy. The score never decreases in a pass, and an event either does not lower it or
  is a reset, which sets it to 0.
\<close>

theorem score_counts_destroyed_enemies:
  "((\<forall>e\<in>set (enemies g). 0 < t_x e) \<longrightarrow>
      score (handleCollisions WIDTH HEIGHT g) =
        score g + 100 * (int (length (enemies g)) -
                         int (length (enemies (handleCollisions WIDTH HEIGHT g))))) \<and>
   ((\<forall>e\<in>set (enemies g). 0 < t_size e \<and> t_size e \<le> WIDTH) \<longrightarrow>
      score (resolve WIDTH HEIGHT dt g) =
        score g + 100 * (int (length (enemies g)) -
                         int (length (enemies (resolve WIDTH HEIGHT dt g))))) \<and>
   score (tank_phase WIDTH HEIGHT g) =
     score g + 100 * int (length (filter (touches (player g)) (enemies g))) \<and>
   score (snd (bullet_step WIDTH HEIGHT b g)) =
     score g + (if b_active b \<and> b_owner b = ''player'' \<and> (\<exists>e\<in>set (enemies g). strikes b e)
                then 100 else 0) \<and>
   length (enemies (handleCollisions WIDTH HEIGHT g)) \<le> length (enemies g) \<and>
   score g \<le> score (handleCollisions WIDTH HEIGHT g) \<and>
   (score g \<le> score (step WIDTH HEIGHT ev g) \<or>
    (score (step WIDTH HEIGHT ev g) = 0 \<and> (ev = ResetClick \<or> ev = KeyDown ''KeyR'')))"
proof -
  have a: "score (handleCollisions WIDTH HEIGHT g) =
        score g + 100 * (int (length (enemies g)) -
                         int (length (enemies (handleCollisions WIDTH HEIGHT g))))"
    if "\<forall>e\<in>set (enemies g). 0 < t_x e"
    using handleCollisions_potential_eq [OF that, of WIDTH HEIGHT] by simp
  have b: "score (resolve WIDTH HEIGHT dt g) =
        score g + 100 * (int (length (enemies g)) -
                         int (length (enemies (resolve WIDTH HEIGHT dt g))))"
    if "\<forall>e\<in>set (enemies g). 0 < t_size e \<and> t_size e \<le> WIDTH"
    using handleCollisions_potential_eq
      [OF move_all_positive [OF that, where H = HEIGHT and dt = dt], where W = WIDTH and H = HEIGHT]
    by (simp add: resolve_def Let_def move_all_fields)
  from a b tank_phase_score [of WIDTH HEIGHT g] bullet_step_score [of WIDTH HEIGHT b g]
    handleCollisions_length [of WIDTH HEIGHT g]
    handleCollisions_score_mono [where g = g and W = WIDTH and H = HEIGHT]
    step_score [of g WIDTH HEIGHT ev]
  show ?thesis by blast
qed

text \<open>One enemy rammed and one enemy shot in the same pass: 200 points, empty roster.\<close>

theorem score_counts_destroyed_enemies_witness:
  "list_all (\<lambda>e. 0 < t_x e) (enemies melee) \<and>
   list_all (\<lambda>e. 0 < t_size e \<and> t_size e \<le> 800) (enemies melee) \<and>
   length (enemies melee) = 2 \<and> enemies (handleCollisions 800 600 melee) = [] \<and>
   score (handleCollisions 800 600 melee) = score melee + 200"
proof -
  have h: "\<forall>e\<in>set (enemies melee). 0 < t_x e"
    "\<forall>e\<in>set (enemies melee). 0 < t_size e \<and> t_size e \<le> 800"
    by (simp_all add: melee_def eval_defs)
  have e: "enemies (handleCollisions 800 600 melee) = []" "length (enemies melee) = 2"
    unfolding handleCollisions_fields by (simp_all add: melee_def eval_defs)
  from h e score_counts_destroyed_enemies [of melee 800 600 16 shot StartClick]
  show ?thesis by (simp add: list_all_iff)
qed

text \<open>
  C9. The callback for one bullet gains 0 or 100 points; if it gains 100 the bullet was
  active and is inactive afterwards; an inactive bullet tests nothing and changes
  nothing. The roster handed to the next bullet contains only enemies of the old roster,
  none of them marked, and (when no enemy lay at or left of \<open>x = 0\<close>) at most one fewer
  than before. Over the whole bullet phase the score gained is at most 100 for every
  enemy that left the roster, hence at most 100 per enemy.
\<close>

theorem player_bullet_hits_once:
  "(score (snd (bullet_step WIDTH HEIGHT b g)) = score g \<or>
    score (snd (bullet_step WIDTH HEIGHT b g)) = score g + 100) \<and>
   (score (snd (bullet_step WIDTH HEIGHT b g)) = score g + 100 \<longrightarrow>
      b_active b \<and> \<not> b_active (fst (bullet_step WIDTH HEIGHT b g))) \<and>
   (\<not> b_active b \<longrightarrow> bullet_step WIDTH HEIGHT b g = (b, g)) \<and>
   set (enemies (snd (bullet_step WIDTH HEIGHT b g))) \<subseteq> set (enemies g) \<and>
   (b_active b \<and> b_owner b = ''player'' \<longrightarrow>
      (\<forall>e\<in>set (enemies (snd (bullet_step WIDTH HEIGHT b g))). 0 < t_x e)) \<and>
   ((\<forall>e\<in>set (enemies g). 0 < t_x e) \<longrightarrow>
      length (enemies g) \<le> length (enemies (snd (bullet_step WIDTH HEIGHT b g))) + 1) \<and>
   score (bullet_phase WIDTH HEIGHT g) + 100 * int (length (enemies (bullet_phase WIDTH HEIGHT g)))
     \<le> score g + 100 * int (length (enemies g)) \<and>
   score (bullet_phase WIDTH HEIGHT g) \<le> score g + 100 * int (length (enemies g))"
proof -
  have gone: "\<forall>e\<in>set (enemies (snd (bullet_step WIDTH HEIGHT b g))). 0 < t_x e"
    if "b_active b \<and> b_owner b = ''player''"
    using that by (cases rule: bullet_step_cases [of WIDTH HEIGHT b g]) auto
  have pot: "score (bullet_phase WIDTH HEIGHT g) +
        100 * int (length (enemies (bullet_phase WIDTH HEIGHT g)))
     \<le> score g + 100 * int (length (enemies g))"
    using bullet_scan_potential_le [of WIDTH HEIGHT "bullets g" g]
    by (simp add: bullet_phase_fields)
  then have tot: "score (bullet_phase WIDTH HEIGHT g) \<le> score g + 100 * int (length (enemies g))"
    by linarith
  have one: "score (snd (bullet_step WIDTH HEIGHT b g)) = score g \<or>
    score (snd (bullet_step WIDTH HEIGHT b g)) = score g + 100"
    by (simp add: bullet_step_score)
  have off: "b_active b \<and> \<not> b_active (fst (bullet_step WIDTH HEIGHT b g))"
    if "score (snd (bullet_step WIDTH HEIGHT b g)) = score g + 100"
    using that by (simp add: bullet_step_score bullet_step_active split: if_splits)
  from gone pot tot one off bullet_step_inactive [of b WIDTH HEIGHT g]
    bullet_step_subset [of WIDTH HEIGHT b g] bullet_step_removes_one [of g WIDTH HEIGHT b]
  show ?thesis by blast
qed

text \<open>
  A player bullet within reach of two enemies destroys the first of them only.
\<close>

theorem player_bullet_hits_once_witness:
  "list_all (strikes (Bullet 202 200 0 ''player'')) (enemies pierce) \<and>
   list_all (\<lambda>e. 0 < t_x e) (enemies pierce) \<and> length (enemies pierce) = 2 \<and>
   score (snd (bullet_step 800 600 (Bullet 202 200 0 ''player'') pierce)) = score pierce + 100 \<and>
   \<not> b_active (fst (bullet_step 800 600 (Bullet 202 200 0 ''player'') pierce)) \<and>
   enemies (snd (bullet_step 800 600 (Bullet 202 200 0 ''player'') pierce)) = [enemy_at 205 200]"
proof -
  have h: "\<forall>e\<in>set (enemies pierce). strikes (Bullet 202 200 0 ''player'') e"
    "\<forall>e\<in>set (enemies pierce). 0 < t_x e" "length (enemies pierce) = 2"
    by (simp_all add: pierce_def eval_defs)
  have s: "score (snd (bullet_step 800 600 (Bullet 202 200 0 ''player'') pierce)) = score pierce + 100"
    "enemies (snd (bullet_step 800 600 (Bullet 202 200 0 ''player'') pierce)) = [enemy_at 205 200]"
    by (simp_all add: pierce_def eval_defs case_prod_beta)
  from h s player_bullet_hits_once [of 800 600 "Bullet 202 200 0 ''player''" pierce]
  show ?thesis by (simp add: list_all_iff)
qed

text \<open>
  C3. The claim that nothing but \<open>reset\<close> resumes updates after game over fails. The
  player loses the last life in the first frame and the game stops; the start button
  sets \<open>running\<close> again, with lives still 0, and the next frame moves the player.
\<close>

theorem start_resumes_after_game_over:
  "lives dying = 1 \<and> running dying \<and>
   lives (run 800 600 [Frame 16] dying) = 0 \<and>
   \<not> running (run 800 600 [Frame 16] dying) \<and>
   t_y (player (run 800 600 [Frame 16] dying)) = 517.4 \<and>
   running (run 800 600 [Frame 16, StartClick] dying) \<and>
   lives (run 800 600 [Frame 16, StartClick] dying) = 0 \<and>
   t_y (player (run 800 600 [Frame 16, StartClick, Frame 32] dying)) = 514.8"
proof -
  have "loop 800 600 32 (start (loop 800 600 16 dying)) =
          draw (update 800 600 16 ((start (loop 800 600 16 dying))\<lparr> lastTime := 32 \<rparr>))"
    by (simp add: loop_def [of 800 600 32] Let_def start_def dying_loop)
  then have "t_y (player (loop 800 600 32 (start (loop 800 600 16 dying)))) = 514.8"
    by (simp add: draw_fields resumed_update)
  then show ?thesis
    by (simp add: dying_fields dying_loop start_def Tank_def)
qed

text \<open>
  C3, as the code has it. A collision pass (and so an \<open>update\<close>) that lowers lives to a
  value of at most 0 ends with \<open>running = false\<close>. While \<open>running\<close> is false an animation
  frame does not call \<open>update\<close>: player, enemies, bullets, score and lives are unchanged.
  Key events, frames and \<open>reset\<close> keep \<open>running\<close> false. The start button, a click on the
  canvas and the start timer set \<open>running\<close> to true, and the pause button does so when
  the game is not running; none of them changes lives.
\<close>

theorem game_over_stops_updates_until_started:
  "(lives (handleCollisions WIDTH HEIGHT g) < lives g \<and> lives (handleCollisions WIDTH HEIGHT g) \<le> 0
      \<longrightarrow> \<not> running (handleCollisions WIDTH HEIGHT g)) \<and>
   (lives (update WIDTH HEIGHT dt g) < lives g \<and> lives (update WIDTH HEIGHT dt g) \<le> 0
      \<longrightarrow> \<not> running (update WIDTH HEIGHT dt g)) \<and>
   \<not> running (gameOver g) \<and>
   (\<not> running g \<longrightarrow>
      loop WIDTH HEIGHT ts g = draw (g\<lparr> lastTime := ts \<rparr>) \<and>
      player (loop WIDTH HEIGHT ts g) = player g \<and> enemies (loop WIDTH HEIGHT ts g) = enemies g \<and>
      bullets (loop WIDTH HEIGHT ts g) = bullets g \<and> score (loop WIDTH HEIGHT ts g) = score g \<and>
      lives (loop WIDTH HEIGHT ts g) = lives g) \<and>
   (\<not> running g \<and> ev \<notin> {StartClick, CanvasClick, StartTimer, PauseClick}
      \<longrightarrow> \<not> running (step WIDTH HEIGHT ev g)) \<and>
   \<not> running (reset WIDTH HEIGHT g) \<and>
   running (step WIDTH HEIGHT StartClick g) \<and> running (step WIDTH HEIGHT CanvasClick g) \<and>
   running (step WIDTH HEIGHT StartTimer g) \<and>
   (\<not> running g \<longrightarrow> running (step WIDTH HEIGHT PauseClick g)) \<and>
   lives (start g) = lives g \<and> lives (togglePause g) = lives g"
proof -
  have idle: "loop WIDTH HEIGHT ts g = draw (g\<lparr> lastTime := ts \<rparr>) \<and>
      player (loop WIDTH HEIGHT ts g) = player g \<and> enemies (loop WIDTH HEIGHT ts g) = enemies g \<and>
      bullets (loop WIDTH HEIGHT ts g) = bullets g \<and> score (loop WIDTH HEIGHT ts g) = score g \<and>
      lives (loop WIDTH HEIGHT ts g) = lives g" if "\<not> running g"
    using that by (simp add: loop_idle draw_fields)
  have ui: "running (step WIDTH HEIGHT StartClick g) \<and> running (step WIDTH HEIGHT CanvasClick g) \<and>
   running (step WIDTH HEIGHT StartTimer g) \<and>
   (\<not> running g \<longrightarrow> running (step WIDTH HEIGHT PauseClick g)) \<and>
   lives (start g) = lives g \<and> lives (togglePause g) = lives g \<and> \<not> running (gameOver g)"
    by (simp add: start_def togglePause_def gameOver_def Let_def)
  from idle ui handleCollisions_game_over [of WIDTH HEIGHT g] update_game_over [of WIDTH HEIGHT dt g]
    step_stays_stopped [of g ev WIDTH HEIGHT] reset_fields(3) [of WIDTH HEIGHT g]
  show ?thesis by blast
qed

text \<open>
  The last life is lost: the game stops, the fire key and a further frame do not start
  it or move the player, and the pause button starts it again.
\<close>

theorem game_over_stops_updates_until_started_witness:
  "lives (update 800 600 16 (dying\<lparr> lastTime := 16 \<rparr>)) < lives (dying\<lparr> lastTime := 16 \<rparr>) \<and>
   lives (update 800 600 16 (dying\<lparr> lastTime := 16 \<rparr>)) \<le> 0 \<and>
   \<not> running (update 800 600 16 (dying\<lparr> lastTime := 16 \<rparr>)) \<and>
   \<not> running (loop 800 600 16 dying) \<and>
   KeyDown ''Space'' \<notin> {StartClick, CanvasClick, StartTimer, PauseClick} \<and>
   \<not> running (step 800 600 (KeyDown ''Space'') (loop 800 600 16 dying)) \<and>
   player (loop 800 600 32 (loop 800 600 16 dying)) = player (loop 800 600 16 dying) \<and>
   running (step 800 600 PauseClick (loop 800 600 16 dying))"
proof -
  have h: "lives (update 800 600 16 (dying\<lparr> lastTime := 16 \<rparr>)) < lives (dying\<lparr> lastTime := 16 \<rparr>)"
    "lives (update 800 600 16 (dying\<lparr> lastTime := 16 \<rparr>)) \<le> 0"
    "\<not> running (loop 800 600 16 dying)"
    by (simp_all add: dying_update dying_loop dying_fields)
  from h game_over_stops_updates_until_started
           [of 800 600 "dying\<lparr> lastTime := 16 \<rparr>" 16 32 "KeyDown ''Space''"]
       game_over_stops_updates_until_started
           [of 800 600 "loop 800 600 16 dying" 16 32 "KeyDown ''Space''"]
  show ?thesis by (simp add: draw_fields)
qed




text \<open>
  C8. After \<open>Bullet.update\<close> a bullet is active exactly when it was active and its new
  position is not beyond the margin (\<open>x < -10\<close>, \<open>x > WIDTH + 10\<close>, \<open>y < -10\<close> or
  \<open>y > HEIGHT + 10\<close>). After its collision callback a bullet is active exactly when it
  was active and registered no hit (a player bullet striking an enemy of the roster, an
  enemy bullet hitting the player). In a collision pass the bullet at every index is the
  old one, at most with the flag switched off, and it is active afterwards exactly when
  it was active and registered no hit in the game as the earlier bullets left it.
  \<open>update\<close> returns the bullets that the pass left active, and no others: in order, the
  updated copies of bullets that were active before (or were fired in this call) and
  stayed within the margin. A frame changes the bullets only through \<open>update\<close>, and only
  while the game is running; every other event keeps the list, empties it or appends a
  new bullet. So no operation turns an inactive bullet active.
\<close>

theorem bullet_flag_falls_once:
  "b_active (Bullet_update WIDTH HEIGHT b) =
     (b_active b \<and>
      \<not> (b_x (Bullet_move b) < - 10 \<or> b_x (Bullet_move b) > WIDTH + 10 \<or>
         b_y (Bullet_move b) < - 10 \<or> b_y (Bullet_move b) > HEIGHT + 10)) \<and>
   b_active (fst (bullet_step WIDTH HEIGHT b g)) =
     (b_active b \<and> \<not> (b_owner b = ''player'' \<and> (\<exists>e\<in>set (enemies g). strikes b e))
                \<and> \<not> (b_owner b = ''enemy'' \<and> hits_player b (player g))) \<and>
   length (bullets (handleCollisions WIDTH HEIGHT g)) = length (bullets g) \<and>
   (\<forall>i < length (bullets g).
      (bullets (handleCollisions WIDTH HEIGHT g) ! i = bullets g ! i \<or>
       bullets (handleCollisions WIDTH HEIGHT g) ! i = (bullets g ! i)\<lparr> b_active := False \<rparr>) \<and>
      b_active (bullets (handleCollisions WIDTH HEIGHT g) ! i) =
        (b_active (bullets g ! i) \<and>
         \<not> (b_owner (bullets g ! i) = ''player'' \<and>
            (\<exists>e\<in>set (enemies (snd (bullet_scan WIDTH HEIGHT (take i (bullets g))
                                      (tank_phase WIDTH HEIGHT g)))).
               strikes (bullets g ! i) e)) \<and>
         \<not> (b_owner (bullets g ! i) = ''enemy'' \<and>
            hits_player (bullets g ! i)
              (player (snd (bullet_scan WIDTH HEIGHT (take i (bullets g))
                              (tank_phase WIDTH HEIGHT g))))))) \<and>
   bullets (update WIDTH HEIGHT dt g) =
     filter b_active (bullets (handleCollisions WIDTH HEIGHT (move_all WIDTH HEIGHT dt g))) \<and>
   (\<exists>fired. (\<forall>b\<in>set fired. b_active b \<and> b_owner b = ''enemy'') \<and>
      bullets (move_all WIDTH HEIGHT dt g) = map (Bullet_update WIDTH HEIGHT) (bullets g @ fired) \<and>
      subseq (bullets (update WIDTH HEIGHT dt g))
        (map (Bullet_update WIDTH HEIGHT)
           (filter (\<lambda>b. b_active b \<and> \<not> out_of_bounds WIDTH HEIGHT (Bullet_move b))
              (bullets g @ fired)))) \<and>
   bullets (step WIDTH HEIGHT (Frame ts) g) =
     (if running g then bullets (update WIDTH HEIGHT (ts - lastTime g) (g\<lparr> lastTime := ts \<rparr>))
      else bullets g) \<and>
   ((\<forall>t. ev \<noteq> Frame t) \<longrightarrow>
      bullets (step WIDTH HEIGHT ev g) = bullets g \<or> bullets (step WIDTH HEIGHT ev g) = [] \<or>
      (\<exists>px py d. bullets (step WIDTH HEIGHT ev g) = bullets g @ [Bullet px py d ''player'']))"
proof -
  have upd: "b_active (Bullet_update WIDTH HEIGHT b) =
     (b_active b \<and>
      \<not> (b_x (Bullet_move b) < - 10 \<or> b_x (Bullet_move b) > WIDTH + 10 \<or>
         b_y (Bullet_move b) < - 10 \<or> b_y (Bullet_move b) > HEIGHT + 10))"
    by (simp add: Bullet_update_active out_of_bounds_def)
  have len: "length (bullets (handleCollisions WIDTH HEIGHT g)) = length (bullets g)"
    by (simp add: handleCollisions_fields bullet_scan_length)
  have same: "bullets (handleCollisions WIDTH HEIGHT g) ! i = bullets g ! i \<or>
       bullets (handleCollisions WIDTH HEIGHT g) ! i = (bullets g ! i)\<lparr> b_active := False \<rparr>"
    if "i < length (bullets g)" for i
    using list_all2_nthD [OF handleCollisions_pointwise [of g WIDTH HEIGHT] that] by blast
  have frame: "bullets (step WIDTH HEIGHT (Frame ts) g) =
     (if running g then bullets (update WIDTH HEIGHT (ts - lastTime g) (g\<lparr> lastTime := ts \<rparr>))
      else bullets g)"
    by (simp add: loop_bullets)
  from upd len same frame bullet_step_active [of WIDTH HEIGHT b g]
    handleCollisions_nth_active [of _ g WIDTH HEIGHT]
    update_bullets_eq [of WIDTH HEIGHT dt g] update_bullets_subseq [of WIDTH HEIGHT dt g]
    step_bullets [of ev WIDTH HEIGHT g]
  show ?thesis by blast
qed

text \<open>
  A bullet flying out over the right margin is switched off and stays off under a further
  update. Two enemy bullets that hit the player are switched off by the collision pass
  and are gone when \<open>update\<close> returns.
\<close>

theorem bullet_flag_falls_once_witness:
  "b_active (Bullet 806 300 0 ''player'') \<and>
   b_x (Bullet_move (Bullet 806 300 0 ''player'')) = 812 \<and>
   \<not> b_active (Bullet_update 800 600 (Bullet 806 300 0 ''player'')) \<and>
   \<not> b_active (Bullet_update 800 600 (Bullet_update 800 600 (Bullet 806 300 0 ''player''))) \<and>
   bullets (move_all 800 600 16 two_shots) =
     [Bullet 400 520 0 ''enemy'', Bullet 400 520 0 ''enemy''] \<and>
   bullets (handleCollisions 800 600 (move_all 800 600 16 two_shots)) =
     [(Bullet 400 520 0 ''enemy'')\<lparr> b_active := False \<rparr>,
      (Bullet 400 520 0 ''enemy'')\<lparr> b_active := False \<rparr>] \<and>
   bullets (update 800 600 16 two_shots) = []"
  using bullet_flag_falls_once [of 800 600 "Bullet 806 300 0 ''player''" two_shots 16 16 StartClick]
    bullet_flag_falls_once
      [of 800 600 "Bullet_update 800 600 (Bullet 806 300 0 ''player'')" two_shots 16 16 StartClick]
    two_shots_move(2) two_shots_collide
  by (simp add: Bullet_def Bullet_move_def BULLET_SPEED_def)

text \<open>
  C10. A key-down of the space key with the player's cooldown at zero appends one active
  bullet owned by the player, 70 percent of the tank size ahead of the player, sets the
  cooldown to 40 and leaves \<open>running\<close> as it is: the handler does not look at \<open>running\<close>.
\<close>

theorem space_fires_when_not_running:
  assumes "t_cooldown (player g) \<le> 0"
  shows "bullets (step WIDTH HEIGHT (KeyDown ''Space'') g) =
           bullets g @ [Bullet (t_x (player g) + cos (t_angle (player g)) * t_size (player g) * 0.7)
                               (t_y (player g) + sin (t_angle (player g)) * t_size (player g) * 0.7)
                               (t_angle (player g)) ''player''] \<and>
         b_owner (last (bullets (step WIDTH HEIGHT (KeyDown ''Space'') g))) = ''player'' \<and>
         b_active (last (bullets (step WIDTH HEIGHT (KeyDown ''Space'') g))) \<and>
         t_cooldown (player (step WIDTH HEIGHT (KeyDown ''Space'') g)) = 40 \<and>
         running (step WIDTH HEIGHT (KeyDown ''Space'') g) = running g"
  using assms by (simp add: keydown_def tryShoot_def Let_def Bullet_def)

text \<open>In a finished game (no lives, not running) the fire key still adds a bullet.\<close>

theorem space_fires_when_not_running_witness:
  "t_cooldown (player over_game) \<le> 0 \<and> \<not> running over_game \<and> lives over_game = 0 \<and>
   bullets (step 800 600 (KeyDown ''Space'') over_game) = [Bullet 425.2 520 0 ''player'']"
proof -
  have h: "t_cooldown (player over_game) \<le> 0" "\<not> running over_game" "lives over_game = 0"
    "bullets over_game = []" "player over_game = Tank 400 520 ''#5ec8ff'' True"
    by (simp_all add: over_game_def gameOver_def base_game_def Tank_def)
  from space_fires_when_not_running [OF h(1), of 800 600] h show ?thesis
    by (simp add: Tank_def)
qed

end
